theory Spec2Isabelle
  imports Main
begin

section \<open>The pipeline reconciler of \<^verbatim>\<open>modules/pipeline/providers/reconciler\<close>\<close>

text \<open>
  This theory embeds \<^verbatim>\<open>pipeline_reconciler.go\<close>: the methods of
  \<^verbatim>\<open>defaultPipelineReconciler\<close> become functions over an explicit state. A method
  that mutates the reconciler, the pipeline object or the outside world returns the new
  value of each. Calls are modelled one after another, never interleaved: the theory
  does not describe two calls that run at the same time. The getters that take the mutex
  \<^verbatim>\<open>pr.lock\<close> and read a field are the field selectors here. Log output is not
  modelled.
\<close>

subsection \<open>Data\<close>

text \<open>
  Modelled from the spec: the type \<^verbatim>\<open>apistructs.PipelineStatus\<close> and its constants are
  declared outside the embedded source. The source compares statuses with \<^verbatim>\<open>==\<close> and
  prints them with \<^verbatim>\<open>%s\<close>; the spec writes the two constants the reconciler assigns as
  \<^verbatim>\<open>Running\<close> and \<^verbatim>\<open>StopByUser\<close>. A status is a string, so that the zero value
  and every status the spec leaves unnamed are values of the type.
\<close>

type_synonym PipelineStatus = string

definition PipelineStatusRunning :: PipelineStatus where
  "PipelineStatusRunning = ''Running''"

definition PipelineStatusStopByUser :: PipelineStatus where
  "PipelineStatusStopByUser = ''StopByUser''"

definition PipelineStatusSuccess :: PipelineStatus where
  "PipelineStatusSuccess = ''Success''"

definition PipelineStatusFailed :: PipelineStatus where
  "PipelineStatusFailed = ''Failed''"

definition PipelineStatusQueue :: PipelineStatus where
  "PipelineStatusQueue = ''Queue''"

text \<open>A Go \<^verbatim>\<open>error\<close> is its message; \<^verbatim>\<open>nil\<close> is \<open>None\<close> of \<open>error option\<close>.\<close>

type_synonym error = string

text \<open>Instants (\<^verbatim>\<open>time.Time\<close>) and durations (\<^verbatim>\<open>time.Duration\<close>) are counted in ticks.\<close>

type_synonym Time = nat
type_synonym Duration = nat

text \<open>
  The fields of \<^verbatim>\<open>spec.PipelineTask\<close> and \<^verbatim>\<open>spec.Pipeline\<close> that the reconciler reads
  or writes. The reconciler itself reads only the \<^verbatim>\<open>Name\<close> of a task; the status of a
  task (\<open>TaskStatus\<close> here, since a field name belongs to one record) is what the status
  reduction looks at. A pipeline embeds the structs \<^verbatim>\<open>PipelineBase\<close> and
  \<^verbatim>\<open>PipelineExtra\<close>, the two rows the store keeps for it: they are the fields
  \<open>Base\<close> and \<open>PExtra\<close>, so \<^verbatim>\<open>p.Status\<close> is \<open>Status (Base p)\<close> and
  \<^verbatim>\<open>p.Extra.CompleteReconcilerTeardown\<close> is
  \<open>CompleteReconcilerTeardown (Extra (PExtra p))\<close>. A pipeline ID is a number that is
  only passed on.
\<close>

record PipelineTask =
  Name :: string
  TaskStatus :: PipelineStatus

record PipelineBase =
  ID :: nat
  Status :: PipelineStatus
  TimeEnd :: "Time option"
  CostTimeSec :: int

record PipelineExtraInfo =
  Namespace :: string
  CompleteReconcilerTeardown :: bool

record PipelineExtra =
  Extra :: PipelineExtraInfo

record Pipeline =
  Base :: PipelineBase
  PExtra :: PipelineExtra

text \<open>
  Everything the reconciler does to the outside is appended to a trace, in program order.
  A store write carries its arguments and its result. A \<^verbatim>\<open>go\<close> statement is recorded
  where the goroutine is started.
\<close>

datatype effect =
    EvUpdatePipelineBaseStatus nat PipelineStatus "error option"
  | EvUpdatePipelineBase nat PipelineBase "error option"
  | EvUpdatePipelineExtraByPipelineID nat PipelineExtra "error option"
  | EvEmitPipelineInstanceEvent Pipeline
  | EvSleep Duration
  | EvGoTriggerNextLoop
  | EvGoPipelineCounterTotalAdd Pipeline int
  | EvGoPipelineGaugeProcessingAdd Pipeline int
  | EvGoPipelineEndEvent Pipeline
  | EvAopHandle Pipeline "error option"
  | EvPipelineCronCompensate nat
  | EvWaitGC string nat
  | EvClearReconcilerPipelineContextCaches nat

text \<open>
  The collaborators of the reconciler: the merger \<^verbatim>\<open>pr.r.ymlTaskMergeDBTasks\<close>, the
  planner \<^verbatim>\<open>pr.st\<close>, the store \<^verbatim>\<open>pr.dbClient\<close>, the hook \<^verbatim>\<open>aop.Handle\<close>, the
  clock and the context. Their code is in other packages, so what they answer is a
  parameter. What the merger, the planner and the task-row query answer at this moment
  are fields of the world. The \<open>n\<close>-th store write since the world began answers
  \<open>storeResult n\<close>, and the \<open>n\<close>-th look at the context finds it cancelled when
  \<open>ctxDone n\<close>: any behaviour of the store and of the context is one such world.
\<close>

record world =
  ymlTaskMergeDBTasks :: "Pipeline \<Rightarrow> error + PipelineTask list"
  GetSchedulableTasks :: "Pipeline \<Rightarrow> PipelineTask list \<Rightarrow> error + PipelineTask list"
  ListPipelineTasksByPipelineID :: "nat \<Rightarrow> error + PipelineTask list"
  storeResult :: "nat \<Rightarrow> error option"
  storeCalls :: nat
  aopHandle :: "Pipeline \<Rightarrow> error option"
  ctxDone :: "nat \<Rightarrow> bool"
  ctxChecks :: nat
  timeNow :: Time
  trace :: "effect list"

text \<open>
  The pure helpers of \<^verbatim>\<open>apistructs\<close>, \<^verbatim>\<open>statusutil\<close>, \<^verbatim>\<open>costtimeutil\<close> and
  \<^verbatim>\<open>rutil\<close> that the reconciler calls and whose code is outside the embedded source.
  They are parameters: a theorem that does not constrain them holds for every
  implementation.
\<close>

record lib =
  IsEndStatus :: "PipelineStatus \<Rightarrow> bool"
  IsSuccessStatus :: "PipelineStatus \<Rightarrow> bool"
  AfterPipelineQueue :: "PipelineStatus \<Rightarrow> bool"
  CalculatePipelineStatusV2 :: "PipelineTask list \<Rightarrow> PipelineStatus"
  CalculatePipelineTaskAllDone :: "PipelineTask list \<Rightarrow> bool"
  CalculatePipelineCostTimeSec :: "Pipeline \<Rightarrow> int"
  rutilDefaultRetryInterval :: Duration

text \<open>
  The internal fields of \<^verbatim>\<open>defaultPipelineReconciler\<close>. \<^verbatim>\<open>processingTasks\<close> is a
  \<^verbatim>\<open>sync.Map\<close> whose values are all \<^verbatim>\<open>struct{}{}\<close>: the set of its keys.
  \<^verbatim>\<open>flagHaveTask\<close> is a \<^verbatim>\<open>*bool\<close>, \<open>None\<close> while it is \<^verbatim>\<open>nil\<close>.
  \<open>CfgRetryInterval\<close> is \<^verbatim>\<open>pr.r.Cfg.RetryInterval\<close>.
\<close>

record defaultPipelineReconciler =
  processingTasks :: "string set"
  defaultRetryInterval :: Duration
  calculatedPipelineStatusByAllReconciledTasks :: PipelineStatus
  flagCanceling :: bool
  flagHaveTask :: "bool option"
  CfgRetryInterval :: Duration

subsection \<open>Store writes and other effects\<close>

definition emit :: "effect list \<Rightarrow> world \<Rightarrow> world" where
  "emit es w = w\<lparr>trace := trace w @ es\<rparr>"

text \<open>
  A store write asks the store for the result of this call, counts the call and records
  the write with its result.
\<close>

definition storeWrite :: "(error option \<Rightarrow> effect) \<Rightarrow> world \<Rightarrow> error option \<times> world" where
  "storeWrite ev w =
     (let r = storeResult w (storeCalls w)
      in (r, w\<lparr>storeCalls := Suc (storeCalls w), trace := trace w @ [ev r]\<rparr>))"

definition UpdatePipelineBaseStatus ::
  "nat \<Rightarrow> PipelineStatus \<Rightarrow> world \<Rightarrow> error option \<times> world" where
  "UpdatePipelineBaseStatus pid st w = storeWrite (EvUpdatePipelineBaseStatus pid st) w"

definition UpdatePipelineBase ::
  "nat \<Rightarrow> PipelineBase \<Rightarrow> world \<Rightarrow> error option \<times> world" where
  "UpdatePipelineBase pid b w = storeWrite (EvUpdatePipelineBase pid b) w"

definition UpdatePipelineExtraByPipelineID ::
  "nat \<Rightarrow> PipelineExtra \<Rightarrow> world \<Rightarrow> error option \<times> world" where
  "UpdatePipelineExtraByPipelineID pid x w =
     storeWrite (EvUpdatePipelineExtraByPipelineID pid x) w"

definition isStoreWrite :: "effect \<Rightarrow> bool" where
  "isStoreWrite e =
     (case e of
        EvUpdatePipelineBaseStatus _ _ _ \<Rightarrow> True
      | EvUpdatePipelineBase _ _ _ \<Rightarrow> True
      | EvUpdatePipelineExtraByPipelineID _ _ _ \<Rightarrow> True
      | _ \<Rightarrow> False)"

definition isBaseWrite :: "effect \<Rightarrow> bool" where
  "isBaseWrite e = (case e of EvUpdatePipelineBase _ _ _ \<Rightarrow> True | _ \<Rightarrow> False)"

definition isExtraWrite :: "effect \<Rightarrow> bool" where
  "isExtraWrite e = (case e of EvUpdatePipelineExtraByPipelineID _ _ _ \<Rightarrow> True | _ \<Rightarrow> False)"

definition isEvent :: "effect \<Rightarrow> bool" where
  "isEvent e = (case e of EvEmitPipelineInstanceEvent _ \<Rightarrow> True | _ \<Rightarrow> False)"

text \<open>The effects added to the trace between an earlier world and a later one.\<close>

definition newEffects :: "world \<Rightarrow> world \<Rightarrow> effect list" where
  "newEffects w w' = drop (length (trace w)) (trace w')"

subsection \<open>\<^verbatim>\<open>NeedReconcile\<close>, \<^verbatim>\<open>IsReconcileDone\<close>\<close>

definition NeedReconcile :: "lib \<Rightarrow> Pipeline \<Rightarrow> bool" where
  "NeedReconcile lb p = (\<not> IsEndStatus lb (Status (Base p)))"

definition IsReconcileDone :: "lib \<Rightarrow> Pipeline \<Rightarrow> bool" where
  "IsReconcileDone lb p = (\<not> NeedReconcile lb p)"

subsection \<open>\<^verbatim>\<open>PrepareBeforeReconcile\<close>\<close>

text \<open>
  The \<^verbatim>\<open>for\<close> loop of \<^verbatim>\<open>PrepareBeforeReconcile\<close>: write the status \<^verbatim>\<open>Running\<close>; on an
  error sleep \<^verbatim>\<open>pr.defaultRetryInterval\<close> and go round again; leave the loop at the first
  write that succeeds. The loop has no bound, so the function is partial: \<open>None\<close> is a
  loop that never ends.
\<close>

partial_function (option) updateStatusRunningLoop ::
  "defaultPipelineReconciler \<Rightarrow> Pipeline \<Rightarrow> world \<Rightarrow> world option" where
  "updateStatusRunningLoop pr p w =
     (case UpdatePipelineBaseStatus (ID (Base p)) PipelineStatusRunning w of
        (Some err, w1) \<Rightarrow> updateStatusRunningLoop pr p (emit [EvSleep (defaultRetryInterval pr)] w1)
      | (None, w1) \<Rightarrow> Some w1)"

declare updateStatusRunningLoop.simps [code]

text \<open>
  The deferred \<^verbatim>\<open>safe.Go\<close> that sends the first trigger runs when the function returns,
  on both paths.
\<close>

definition PrepareBeforeReconcile ::
  "lib \<Rightarrow> defaultPipelineReconciler \<Rightarrow> Pipeline \<Rightarrow> world \<Rightarrow> (Pipeline \<times> world) option" where
  "PrepareBeforeReconcile lb pr p w =
     (if AfterPipelineQueue lb (Status (Base p)) then Some (p, emit [EvGoTriggerNextLoop] w)
      else
        (case updateStatusRunningLoop pr p w of
           None \<Rightarrow> None
         | Some w1 \<Rightarrow>
             (let p1 = p\<lparr>Base := (Base p)\<lparr>Status := PipelineStatusRunning\<rparr>\<rparr>
              in Some (p1, emit [EvEmitPipelineInstanceEvent p1, EvGoTriggerNextLoop] w1))))"

text \<open>
  What \<open>k\<close> failed rounds of a retry loop leave in the trace, when the first of them is
  store call \<open>n\<close>: each round is the write with the store's answer, then the sleep.
\<close>

fun failedRounds ::
  "(error option \<Rightarrow> effect) \<Rightarrow> Duration \<Rightarrow> (nat \<Rightarrow> error option) \<Rightarrow> nat \<Rightarrow> nat \<Rightarrow> effect list" where
  "failedRounds ev d res n 0 = []"
| "failedRounds ev d res n (Suc k) = [ev (res n), EvSleep d] @ failedRounds ev d res (Suc n) k"

subsection \<open>\<^verbatim>\<open>GetTasksCanBeConcurrentlyScheduled\<close>\<close>

text \<open>\<^verbatim>\<open>sync.Map.LoadOrStore\<close>: whether the key was there, and the map with the key in it.\<close>

definition LoadOrStore :: "string \<Rightarrow> string set \<Rightarrow> bool \<times> string set" where
  "LoadOrStore k m = (k \<in> m, insert k m)"

text \<open>
  The loop over \<^verbatim>\<open>schedulableTasks\<close>, with \<^verbatim>\<open>filteredTasks\<close> as the accumulator.
\<close>

fun filterProcessing ::
  "PipelineTask list \<Rightarrow> string set \<Rightarrow> PipelineTask list \<Rightarrow> PipelineTask list \<times> string set" where
  "filterProcessing [] m filteredTasks = (filteredTasks, m)"
| "filterProcessing (task # rest) m filteredTasks =
     (case LoadOrStore (Name task) m of
        (onProcessing, m1) \<Rightarrow>
          filterProcessing rest m1
            (if \<not> onProcessing then filteredTasks @ [task] else filteredTasks))"

definition GetTasksCanBeConcurrentlyScheduled ::
  "defaultPipelineReconciler \<Rightarrow> Pipeline \<Rightarrow> world \<Rightarrow>
     (error + PipelineTask list) \<times> defaultPipelineReconciler" where
  "GetTasksCanBeConcurrentlyScheduled pr p w =
     (case ymlTaskMergeDBTasks w p of
        Inl err \<Rightarrow> (Inl err, pr)
      | Inr allTasks \<Rightarrow>
          if flagCanceling pr then (Inr [], pr)
          else
            (case GetSchedulableTasks w p allTasks of
               Inl err \<Rightarrow> (Inl err, pr)
             | Inr schedulableTasks \<Rightarrow>
                 (case filterProcessing schedulableTasks (processingTasks pr) [] of
                    (filteredTasks, m) \<Rightarrow> (Inr filteredTasks, pr\<lparr>processingTasks := m\<rparr>))))"

subsection \<open>\<^verbatim>\<open>UpdateCurrentReconcileStatusIfNecessary\<close>\<close>

text \<open>
  The write at the end of the method: nothing when the status is the pipeline's own;
  otherwise one store write, and after a successful write the assignment to \<^verbatim>\<open>p.Status\<close>
  and the event.
\<close>

definition updateStatusIfChanged ::
  "PipelineStatus \<Rightarrow> Pipeline \<Rightarrow> world \<Rightarrow> error option \<times> Pipeline \<times> world" where
  "updateStatusIfChanged calculatedPipelineStatus p w =
     (if Status (Base p) = calculatedPipelineStatus then (None, p, w)
      else
        (case UpdatePipelineBaseStatus (ID (Base p)) calculatedPipelineStatus w of
           (Some err, w1) \<Rightarrow> (Some err, p, w1)
         | (None, w1) \<Rightarrow>
             (let p1 = p\<lparr>Base := (Base p)\<lparr>Status := calculatedPipelineStatus\<rparr>\<rparr>
              in (None, p1, emit [EvEmitPipelineInstanceEvent p1] w1))))"

definition UpdateCurrentReconcileStatusIfNecessary ::
  "lib \<Rightarrow> defaultPipelineReconciler \<Rightarrow> Pipeline \<Rightarrow> world \<Rightarrow>
     error option \<times> Pipeline \<times> world" where
  "UpdateCurrentReconcileStatusIfNecessary lb pr p w =
     (let calculatedStatusByAllReconciledTasks = calculatedPipelineStatusByAllReconciledTasks pr
      in if IsEndStatus lb calculatedStatusByAllReconciledTasks
         then updateStatusIfChanged calculatedStatusByAllReconciledTasks p w
         else
           (case ymlTaskMergeDBTasks w p of
              Inl err \<Rightarrow> (Some err, p, w)
            | Inr allTasks \<Rightarrow>
                if \<not> CalculatePipelineTaskAllDone lb allTasks then (None, p, w)
                else updateStatusIfChanged (CalculatePipelineStatusV2 lb allTasks) p w))"

subsection \<open>\<^verbatim>\<open>calculatePipelineStatusByAllReconciledTasks\<close>\<close>

text \<open>
  Dereferencing \<^verbatim>\<open>pr.flagHaveTask\<close> while it is \<^verbatim>\<open>nil\<close> would panic; the panic is a
  result of its own.
\<close>

datatype panic = NilPointerDereference

text \<open>The first block of the method: compute \<^verbatim>\<open>flagHaveTask\<close> from the merged tasks, once.\<close>

definition setFlagHaveTaskIfNotSet ::
  "defaultPipelineReconciler \<Rightarrow> Pipeline \<Rightarrow> world \<Rightarrow> error + defaultPipelineReconciler" where
  "setFlagHaveTaskIfNotSet pr p w =
     (if flagHaveTask pr = None
      then (case ymlTaskMergeDBTasks w p of
              Inl err \<Rightarrow> Inl err
            | Inr allTasks \<Rightarrow> Inr (pr\<lparr>flagHaveTask := Some (length allTasks > 0)\<rparr>))
      else Inr pr)"

text \<open>
  The two special cases, in the order of the source. \<^verbatim>\<open>&&\<close> evaluates the dereference
  only when the two tests before it hold.
\<close>

definition considerSpecialCases ::
  "lib \<Rightarrow> defaultPipelineReconciler \<Rightarrow> PipelineTask list \<Rightarrow> PipelineStatus \<Rightarrow>
     panic + PipelineStatus" where
  "considerSpecialCases lb pr tasks st =
     (case (if IsSuccessStatus lb st \<and> length tasks = 0
            then (case flagHaveTask pr of
                    None \<Rightarrow> Inl NilPointerDereference
                  | Some haveTask \<Rightarrow> Inr (if haveTask then PipelineStatusRunning else st))
            else Inr st) of
        Inl pn \<Rightarrow> Inl pn
      | Inr st1 \<Rightarrow> Inr (if flagCanceling pr then PipelineStatusStopByUser else st1))"

definition calculatePipelineStatusByAllReconciledTasks ::
  "lib \<Rightarrow> defaultPipelineReconciler \<Rightarrow> Pipeline \<Rightarrow> world \<Rightarrow>
     panic + (error option \<times> defaultPipelineReconciler)" where
  "calculatePipelineStatusByAllReconciledTasks lb pr p w =
     (case setFlagHaveTaskIfNotSet pr p w of
        Inl err \<Rightarrow> Inr (Some err, pr)
      | Inr pr1 \<Rightarrow>
          (case ListPipelineTasksByPipelineID w (ID (Base p)) of
             Inl err \<Rightarrow> Inr (Some err, pr1)
           | Inr tasks \<Rightarrow>
               (case considerSpecialCases lb pr1 tasks (CalculatePipelineStatusV2 lb tasks) of
                  Inl pn \<Rightarrow> Inl pn
                | Inr st \<Rightarrow>
                    Inr (None, pr1\<lparr>calculatedPipelineStatusByAllReconciledTasks := st\<rparr>))))"

subsection \<open>\<^verbatim>\<open>CancelReconcile\<close>\<close>

definition CancelReconcile :: "defaultPipelineReconciler \<Rightarrow> defaultPipelineReconciler" where
  "CancelReconcile pr = pr\<lparr>flagCanceling := True\<rparr>"

subsection \<open>The retry helper\<close>

text \<open>
  Modelled from the spec: \<^verbatim>\<open>rutil.ContinueWorking\<close> and \<^verbatim>\<open>rutil.WaitDuration\<close> are
  outside the embedded source. The spec describes the helper as "keep trying this step
  with interval W until it signals abort", with three outcomes per attempt (abort,
  continue with the default interval, continue with a custom interval), and says that it
  honors context cancellation by returning promptly. The step works on the pipeline object
  and the world, which is what the closures of the teardown capture.
\<close>

datatype WaitDuration =
    ContinueWorkingAbort
  | ContinueWorkingWithDefaultInterval
  | ContinueWorkingWithCustomInterval Duration

definition ctxIsDone :: "world \<Rightarrow> bool \<times> world" where
  "ctxIsDone w = (ctxDone w (ctxChecks w), w\<lparr>ctxChecks := Suc (ctxChecks w)\<rparr>)"

text \<open>What an attempt's outcome asks for: stop, or sleep this long and try again.\<close>

definition waitInterval :: "Duration \<Rightarrow> WaitDuration \<Rightarrow> Duration option" where
  "waitInterval defaultInterval d =
     (case d of
        ContinueWorkingAbort \<Rightarrow> None
      | ContinueWorkingWithDefaultInterval \<Rightarrow> Some defaultInterval
      | ContinueWorkingWithCustomInterval c \<Rightarrow> Some c)"

partial_function (option) ContinueWorking ::
  "Duration \<Rightarrow> (Pipeline \<times> world \<Rightarrow> WaitDuration \<times> Pipeline \<times> world) \<Rightarrow>
     Pipeline \<times> world \<Rightarrow> (Pipeline \<times> world) option" where
  "ContinueWorking defaultInterval f s =
     (case ctxIsDone (snd s) of
        (done, w0) \<Rightarrow>
          if done then Some (fst s, w0)
          else
            (case f (fst s, w0) of
               (d, p1, w1) \<Rightarrow>
                 (case waitInterval defaultInterval d of
                    None \<Rightarrow> Some (p1, w1)
                  | Some t \<Rightarrow> ContinueWorking defaultInterval f (p1, emit [EvSleep t] w1))))"

declare ContinueWorking.simps [code]

subsection \<open>\<^verbatim>\<open>TeardownAfterReconcileDone\<close>\<close>

text \<open>The three closures handed to the retry helper, in the order of the source.\<close>

definition teardownUpdateEndTime ::
  "lib \<Rightarrow> Time \<Rightarrow> Pipeline \<times> world \<Rightarrow> WaitDuration \<times> Pipeline \<times> world" where
  "teardownUpdateEndTime lb now s =
     (case s of (p, w) \<Rightarrow>
        if TimeEnd (Base p) \<noteq> None then (ContinueWorkingAbort, p, w)
        else
          (let p1 = p\<lparr>Base := (Base p)\<lparr>TimeEnd := Some now\<rparr>\<rparr>;
               p2 = p1\<lparr>Base := (Base p1)\<lparr>CostTimeSec := CalculatePipelineCostTimeSec lb p1\<rparr>\<rparr>
           in (case UpdatePipelineBase (ID (Base p2)) (Base p2) w of
                 (Some err, w1) \<Rightarrow> (ContinueWorkingWithDefaultInterval, p2, w1)
               | (None, w1) \<Rightarrow> (ContinueWorkingAbort, p2, w1))))"

definition teardownAfterExecAop :: "Pipeline \<times> world \<Rightarrow> WaitDuration \<times> Pipeline \<times> world" where
  "teardownAfterExecAop s =
     (case s of (p, w) \<Rightarrow> (ContinueWorkingAbort, p, emit [EvAopHandle p (aopHandle w p)] w))"

definition teardownMark ::
  "defaultPipelineReconciler \<Rightarrow> Pipeline \<times> world \<Rightarrow> WaitDuration \<times> Pipeline \<times> world" where
  "teardownMark pr s =
     (case s of (p, w) \<Rightarrow>
        if CompleteReconcilerTeardown (Extra (PExtra p)) then (ContinueWorkingAbort, p, w)
        else
          (let p1 = p\<lparr>PExtra := (PExtra p)\<lparr>Extra :=
                        (Extra (PExtra p))\<lparr>CompleteReconcilerTeardown := True\<rparr>\<rparr>\<rparr>
           in (case UpdatePipelineExtraByPipelineID (ID (Base p1)) (PExtra p1) w of
                 (Some err, w1) \<Rightarrow> (ContinueWorkingWithCustomInterval (CfgRetryInterval pr), p1, w1)
               | (None, w1) \<Rightarrow> (ContinueWorkingAbort, p1, w1))))"

definition metricsEffects :: "Pipeline \<Rightarrow> effect list" where
  "metricsEffects p =
     [EvGoPipelineCounterTotalAdd p 1, EvGoPipelineGaugeProcessingAdd p (- 1),
      EvGoPipelineEndEvent p]"

definition cleanupEffects :: "Pipeline \<Rightarrow> effect list" where
  "cleanupEffects p =
     [EvPipelineCronCompensate (ID (Base p)),
      EvWaitGC (Namespace (Extra (PExtra p))) (ID (Base p)),
      EvClearReconcilerPipelineContextCaches (ID (Base p))]"

text \<open>
  The first two calls of the retry helper pass \<^verbatim>\<open>pr.defaultRetryInterval\<close> as the default
  interval, the third passes no option and gets the helper's own default.
\<close>

definition TeardownAfterReconcileDone ::
  "lib \<Rightarrow> defaultPipelineReconciler \<Rightarrow> Pipeline \<Rightarrow> world \<Rightarrow> (Pipeline \<times> world) option" where
  "TeardownAfterReconcileDone lb pr p w =
     (let now = timeNow w
      in (case ContinueWorking (defaultRetryInterval pr) (teardownUpdateEndTime lb now) (p, w) of
            None \<Rightarrow> None
          | Some (p1, w1) \<Rightarrow>
              (case ContinueWorking (defaultRetryInterval pr) teardownAfterExecAop
                      (p1, emit (metricsEffects p1) w1) of
                 None \<Rightarrow> None
               | Some (p2, w2) \<Rightarrow>
                   ContinueWorking (rutilDefaultRetryInterval lb) (teardownMark pr)
                     (p2, emit (cleanupEffects p2) w2))))"

subsection \<open>Runs of one reconciler\<close>

text \<open>
  The lifetime of one reconciler is a sequence of calls of the methods above on the same
  reconciler and pipeline object. Between two calls the collaborators may do anything:
  task rows change, the planner answers differently, the store recovers. A run is a list
  of steps, each a call or a change of the world, and it collects, in order, every task
  list that \<^verbatim>\<open>GetTasksCanBeConcurrentlyScheduled\<close> has returned. A call that panics or
  never returns ends the run with \<open>None\<close>. \<^verbatim>\<open>ReconcileOneSchedulableTask\<close> builds a
  \<^verbatim>\<open>defaultTaskReconciler\<close> and runs it; that type is defined in another file, so the
  method is not among the calls.
\<close>

datatype call =
    CallPrepareBeforeReconcile
  | CallGetTasksCanBeConcurrentlyScheduled
  | CallUpdateCurrentReconcileStatusIfNecessary
  | CallCalculatePipelineStatusByAllReconciledTasks
  | CallCancelReconcile
  | CallTeardownAfterReconcileDone

datatype step = Call call | Environment world

record config =
  reconciler :: defaultPipelineReconciler
  pipeline :: Pipeline
  env :: world
  returned :: "PipelineTask list list"

definition exec :: "lib \<Rightarrow> call \<Rightarrow> config \<Rightarrow> config option" where
  "exec lb c s =
     (case c of
        CallPrepareBeforeReconcile \<Rightarrow>
          (case PrepareBeforeReconcile lb (reconciler s) (pipeline s) (env s) of
             None \<Rightarrow> None
           | Some (p, w) \<Rightarrow> Some (s\<lparr>pipeline := p, env := w\<rparr>))
      | CallGetTasksCanBeConcurrentlyScheduled \<Rightarrow>
          (case GetTasksCanBeConcurrentlyScheduled (reconciler s) (pipeline s) (env s) of
             (Inl err, pr) \<Rightarrow> Some (s\<lparr>reconciler := pr\<rparr>)
           | (Inr tasks, pr) \<Rightarrow> Some (s\<lparr>reconciler := pr, returned := returned s @ [tasks]\<rparr>))
      | CallUpdateCurrentReconcileStatusIfNecessary \<Rightarrow>
          (case UpdateCurrentReconcileStatusIfNecessary lb (reconciler s) (pipeline s) (env s) of
             (r, p, w) \<Rightarrow> Some (s\<lparr>pipeline := p, env := w\<rparr>))
      | CallCalculatePipelineStatusByAllReconciledTasks \<Rightarrow>
          (case calculatePipelineStatusByAllReconciledTasks lb (reconciler s) (pipeline s) (env s) of
             Inl pn \<Rightarrow> None
           | Inr (r, pr) \<Rightarrow> Some (s\<lparr>reconciler := pr\<rparr>))
      | CallCancelReconcile \<Rightarrow> Some (s\<lparr>reconciler := CancelReconcile (reconciler s)\<rparr>)
      | CallTeardownAfterReconcileDone \<Rightarrow>
          (case TeardownAfterReconcileDone lb (reconciler s) (pipeline s) (env s) of
             None \<Rightarrow> None
           | Some (p, w) \<Rightarrow> Some (s\<lparr>pipeline := p, env := w\<rparr>)))"

fun run :: "lib \<Rightarrow> step list \<Rightarrow> config \<Rightarrow> config option" where
  "run lb [] s = Some s"
| "run lb (Call c # rest) s =
     (case exec lb c s of None \<Rightarrow> None | Some s1 \<Rightarrow> run lb rest s1)"
| "run lb (Environment w # rest) s = run lb rest (s\<lparr>env := w\<rparr>)"

text \<open>The names of all tasks returned so far, in the order they were returned.\<close>

definition returnedNames :: "config \<Rightarrow> string list" where
  "returnedNames s = map Name (concat (returned s))"

subsection \<open>A concrete library and concrete inputs\<close>

text \<open>
  Modelled from the spec: the status predicates and the reduction of section 4.4.1, for
  the statuses the spec names. \<^verbatim>\<open>Success\<close>, \<^verbatim>\<open>Failed\<close> and \<^verbatim>\<open>StopByUser\<close> are
  terminal; a pipeline has passed the queue once it is running or terminal; the reduction
  is \<^verbatim>\<open>Running\<close> if any task is not terminal, else \<^verbatim>\<open>StopByUser\<close> if any task is,
  else \<^verbatim>\<open>Failed\<close> if any task is, else \<^verbatim>\<open>Success\<close>; all tasks are done when each is
  terminal. The spec does not say how the cost time is computed; here it is 0. This
  library is one value of the parameter \<open>lb\<close>, used to evaluate the theorems below.
\<close>

definition specIsEndStatus :: "PipelineStatus \<Rightarrow> bool" where
  "specIsEndStatus st =
     (st = PipelineStatusSuccess \<or> st = PipelineStatusFailed \<or> st = PipelineStatusStopByUser)"

definition specCalculatePipelineStatusV2 :: "PipelineTask list \<Rightarrow> PipelineStatus" where
  "specCalculatePipelineStatusV2 tasks =
     (if list_ex (\<lambda>t. \<not> specIsEndStatus (TaskStatus t)) tasks then PipelineStatusRunning
      else if list_ex (\<lambda>t. TaskStatus t = PipelineStatusStopByUser) tasks
      then PipelineStatusStopByUser
      else if list_ex (\<lambda>t. TaskStatus t = PipelineStatusFailed) tasks then PipelineStatusFailed
      else PipelineStatusSuccess)"

definition specLib :: lib where
  "specLib =
     \<lparr>IsEndStatus = specIsEndStatus,
      IsSuccessStatus = (\<lambda>st. st = PipelineStatusSuccess),
      AfterPipelineQueue = (\<lambda>st. st = PipelineStatusRunning \<or> specIsEndStatus st),
      CalculatePipelineStatusV2 = specCalculatePipelineStatusV2,
      CalculatePipelineTaskAllDone = list_all (\<lambda>t. specIsEndStatus (TaskStatus t)),
      CalculatePipelineCostTimeSec = (\<lambda>p. 0),
      rutilDefaultRetryInterval = 1\<rparr>"

text \<open>
  Pipeline 1, queued, with the tasks \<^verbatim>\<open>a\<close> and \<^verbatim>\<open>b\<close>; a fresh reconciler; a world
  in which nothing fails, the planner returns every merged task and no task row has been
  written yet.
\<close>

definition task :: "string \<Rightarrow> PipelineStatus \<Rightarrow> PipelineTask" where
  "task n st = \<lparr>Name = n, TaskStatus = st\<rparr>"

definition pipeline1 :: Pipeline where
  "pipeline1 =
     \<lparr>Base = \<lparr>ID = 1, Status = PipelineStatusQueue, TimeEnd = None, CostTimeSec = 0\<rparr>,
      PExtra = \<lparr>Extra = \<lparr>Namespace = ''pipeline-1'', CompleteReconcilerTeardown = False\<rparr>\<rparr>\<rparr>"

definition reconciler0 :: defaultPipelineReconciler where
  "reconciler0 =
     \<lparr>processingTasks = {}, defaultRetryInterval = 5,
      calculatedPipelineStatusByAllReconciledTasks = [],
      flagCanceling = False, flagHaveTask = None, CfgRetryInterval = 7\<rparr>"

definition world0 :: world where
  "world0 =
     \<lparr>ymlTaskMergeDBTasks = (\<lambda>p. Inr [task ''a'' PipelineStatusQueue, task ''b'' PipelineStatusQueue]),
      GetSchedulableTasks = (\<lambda>p allTasks. Inr allTasks),
      ListPipelineTasksByPipelineID = (\<lambda>pid. Inr []),
      storeResult = (\<lambda>n. None), storeCalls = 0,
      aopHandle = (\<lambda>p. None),
      ctxDone = (\<lambda>n. False), ctxChecks = 0,
      timeNow = 100, trace = []\<rparr>"

text \<open>The same world with a store that fails its first \<open>k\<close> writes.\<close>

definition worldFailing :: "nat \<Rightarrow> world" where
  "worldFailing k = world0\<lparr>storeResult := (\<lambda>n. if n < k then Some ''store down'' else None)\<rparr>"

text \<open>The same world with a store that fails its second write only.\<close>

definition worldSecondWriteFails :: world where
  "worldSecondWriteFails =
     world0\<lparr>storeResult := (\<lambda>n. if n = 1 then Some ''store down'' else None)\<rparr>"

text \<open>
  Pipeline 1 when all its tasks have succeeded and the status has been persisted: what
  the teardown receives. Then the same pipeline after the first step of the teardown at
  time 100, and after the last step.
\<close>

definition pipelineDone :: Pipeline where
  "pipelineDone = pipeline1\<lparr>Base := (Base pipeline1)\<lparr>Status := PipelineStatusSuccess\<rparr>\<rparr>"

definition pipelineEnded :: Pipeline where
  "pipelineEnded =
     \<lparr>Base = \<lparr>ID = 1, Status = PipelineStatusSuccess, TimeEnd = Some 100, CostTimeSec = 0\<rparr>,
      PExtra = \<lparr>Extra = \<lparr>Namespace = ''pipeline-1'', CompleteReconcilerTeardown = False\<rparr>\<rparr>\<rparr>"

definition pipelineMarked :: Pipeline where
  "pipelineMarked =
     \<lparr>Base = \<lparr>ID = 1, Status = PipelineStatusSuccess, TimeEnd = Some 100, CostTimeSec = 0\<rparr>,
      PExtra = \<lparr>Extra = \<lparr>Namespace = ''pipeline-1'', CompleteReconcilerTeardown = True\<rparr>\<rparr>\<rparr>"

definition config0 :: config where
  "config0 = \<lparr>reconciler = reconciler0, pipeline = pipeline1, env = world0, returned = []\<rparr>"

subsection \<open>The invariant of the returned tasks\<close>

text \<open>
  Every name returned so far is in \<^verbatim>\<open>processingTasks\<close>, and no name has been returned
  twice.
\<close>

definition dispatchedOnce :: "config \<Rightarrow> bool" where
  "dispatchedOnce s =
     (distinct (returnedNames s) \<and> set (returnedNames s) \<subseteq> processingTasks (reconciler s))"

section \<open>Verification\<close>

lemmas example_defs =
  specLib_def specIsEndStatus_def specCalculatePipelineStatusV2_def task_def pipeline1_def
  reconciler0_def world0_def worldFailing_def worldSecondWriteFails_def config0_def
  pipelineDone_def pipelineEnded_def pipelineMarked_def
  PipelineStatusRunning_def PipelineStatusStopByUser_def PipelineStatusSuccess_def
  PipelineStatusFailed_def PipelineStatusQueue_def

subsection \<open>The status aggregator, case by case\<close>

lemma setFlagHaveTaskIfNotSet_result:
  assumes "setFlagHaveTaskIfNotSet pr p w = Inr pr1"
  shows "\<exists>b. pr1 = pr\<lparr>flagHaveTask := Some b\<rparr>"
proof (cases "flagHaveTask pr")
  case None
  show ?thesis
  proof (cases "ymlTaskMergeDBTasks w p")
    case (Inl err)
    with None assms show ?thesis by (simp add: setFlagHaveTaskIfNotSet_def)
  next
    case (Inr allTasks)
    with None assms have "pr1 = pr\<lparr>flagHaveTask := Some (length allTasks > 0)\<rparr>"
      by (simp add: setFlagHaveTaskIfNotSet_def)
    then show ?thesis by blast
  qed
next
  case (Some b)
  with assms have "pr1 = pr" by (simp add: setFlagHaveTaskIfNotSet_def)
  with Some have "pr1 = pr\<lparr>flagHaveTask := Some b\<rparr>" by simp
  then show ?thesis by blast
qed


lemma considerSpecialCases_result:
  assumes "flagHaveTask pr1 = Some b"
  shows "considerSpecialCases lb pr1 tasks st =
     Inr (if flagCanceling pr1 then PipelineStatusStopByUser
          else if IsSuccessStatus lb st \<and> tasks = [] \<and> b then PipelineStatusRunning
          else st)"
  using assms by (simp add: considerSpecialCases_def)

lemma calculate_result:
  assumes "setFlagHaveTaskIfNotSet pr p w = Inr pr1"
    and "ListPipelineTasksByPipelineID w (ID (Base p)) = Inr tasks"
  shows "calculatePipelineStatusByAllReconciledTasks lb pr p w =
     Inr (None, pr1\<lparr>calculatedPipelineStatusByAllReconciledTasks :=
        (if flagCanceling pr then PipelineStatusStopByUser
         else if IsSuccessStatus lb (CalculatePipelineStatusV2 lb tasks) \<and> tasks = []
                 \<and> flagHaveTask pr1 = Some True
         then PipelineStatusRunning
         else CalculatePipelineStatusV2 lb tasks)\<rparr>)"
proof -
  from setFlagHaveTaskIfNotSet_result [OF assms(1)] obtain b where
    pr1: "pr1 = pr\<lparr>flagHaveTask := Some b\<rparr>" by blast
  then have b: "flagHaveTask pr1 = Some b" and c: "flagCanceling pr1 = flagCanceling pr"
    by simp_all
  show ?thesis
    unfolding calculatePipelineStatusByAllReconciledTasks_def
    by (simp add: assms considerSpecialCases_result [OF b] b c)
qed

lemma calculate_error:
  "setFlagHaveTaskIfNotSet pr p w = Inl err \<Longrightarrow>
     calculatePipelineStatusByAllReconciledTasks lb pr p w = Inr (Some err, pr)"
  "setFlagHaveTaskIfNotSet pr p w = Inr pr1 \<Longrightarrow>
     ListPipelineTasksByPipelineID w (ID (Base p)) = Inl err \<Longrightarrow>
     calculatePipelineStatusByAllReconciledTasks lb pr p w = Inr (Some err, pr1)"
  by (simp_all add: calculatePipelineStatusByAllReconciledTasks_def)

lemma calculate_frame:
  assumes "calculatePipelineStatusByAllReconciledTasks lb pr p w = Inr (r, pr')"
  shows "processingTasks pr' = processingTasks pr \<and> flagCanceling pr' = flagCanceling pr"
proof (cases "setFlagHaveTaskIfNotSet pr p w")
  case (Inl err)
  from calculate_error(1) [OF this, of lb] assms show ?thesis by simp
next
  case (Inr pr1)
  from setFlagHaveTaskIfNotSet_result [OF this] obtain b where
    pr1: "pr1 = pr\<lparr>flagHaveTask := Some b\<rparr>" by blast
  show ?thesis
  proof (cases "ListPipelineTasksByPipelineID w (ID (Base p))")
    case (Inl err)
    from calculate_error(2) [OF Inr this, of lb] assms have "pr' = pr1" by simp
    with pr1 show ?thesis by simp
  next
    case tasks: (Inr tasks)
    have "processingTasks pr' = processingTasks pr1 \<and> flagCanceling pr' = flagCanceling pr1"
      using calculate_result [OF Inr tasks, of lb] assms by simp
    with pr1 show ?thesis by simp
  qed
qed

lemma calculate_no_panic:
  "\<exists>r pr'. calculatePipelineStatusByAllReconciledTasks lb pr p w = Inr (r, pr')"
proof (cases "setFlagHaveTaskIfNotSet pr p w")
  case (Inl err)
  from calculate_error(1) [OF this] show ?thesis by blast
next
  case (Inr pr1)
  show ?thesis
  proof (cases "ListPipelineTasksByPipelineID w (ID (Base p))")
    case (Inl err)
    from calculate_error(2) [OF Inr this] show ?thesis by blast
  next
    case tasks: (Inr tasks)
    from calculate_result [OF Inr this] show ?thesis by blast
  qed
qed


subsection \<open>Tasks are returned at most once\<close>

lemma GetTasks_result:
  assumes "GetTasksCanBeConcurrentlyScheduled pr p w = (res, pr')"
  shows "(pr' = pr \<and> (case res of Inl err \<Rightarrow> True | Inr tasks \<Rightarrow> tasks = [])) \<or>
     (\<exists>sts tasks. res = Inr tasks \<and>
        filterProcessing sts (processingTasks pr) [] = (tasks, processingTasks pr'))"
proof (cases "ymlTaskMergeDBTasks w p")
  case (Inl err)
  with assms have "res = Inl err \<and> pr' = pr"
    by (simp add: GetTasksCanBeConcurrentlyScheduled_def)
  then show ?thesis by simp
next
  case allTasks: (Inr allTasks)
  show ?thesis
  proof (cases "flagCanceling pr")
    case True
    with allTasks assms have "res = Inr [] \<and> pr' = pr"
      by (simp add: GetTasksCanBeConcurrentlyScheduled_def)
    then show ?thesis by simp
  next
    case False
    show ?thesis
    proof (cases "GetSchedulableTasks w p allTasks")
      case (Inl err)
      with allTasks False assms have "res = Inl err \<and> pr' = pr"
        by (simp add: GetTasksCanBeConcurrentlyScheduled_def)
      then show ?thesis by simp
    next
      case (Inr sts)
      obtain tasks m where f: "filterProcessing sts (processingTasks pr) [] = (tasks, m)"
        by (cases "filterProcessing sts (processingTasks pr) []")
      with Inr allTasks False assms have "res = Inr tasks \<and> pr' = pr\<lparr>processingTasks := m\<rparr>"
        by (simp add: GetTasksCanBeConcurrentlyScheduled_def)
      with f have "res = Inr tasks \<and>
          filterProcessing sts (processingTasks pr) [] = (tasks, processingTasks pr')"
        by simp
      then show ?thesis by blast
    qed
  qed
qed

lemma distinct_map_filter_le1:
  "distinct (map f xs) \<Longrightarrow> length (filter (\<lambda>x. f x = n) xs) \<le> 1"
proof (induction xs)
  case Nil
  then show ?case by simp
next
  case (Cons a xs)
  show ?case
  proof (cases "f a = n")
    case True
    from Cons.prems have "f a \<notin> f ` set xs" by simp
    then have "\<forall>x\<in>set xs. f x \<noteq> n" unfolding True [symmetric] by (metis image_eqI)
    then have "filter (\<lambda>x. f x = n) xs = []"
      by (simp add: filter_empty_conv)
    with True show ?thesis by simp
  next
    case False
    with Cons show ?thesis by simp
  qed
qed


lemma filterProcessing_names:
  "filterProcessing ts m acc = (acc', m') \<Longrightarrow>
     m' = m \<union> Name ` set ts \<and>
     (\<exists>new. acc' = acc @ new \<and> distinct (map Name new) \<and> Name ` set new \<inter> m = {}
        \<and> Name ` set new \<subseteq> m')"
proof (induction ts arbitrary: m acc)
  case Nil
  then show ?case by simp
next
  case (Cons t ts)
  show ?case
  proof (cases "Name t \<in> m")
    case True
    with Cons.prems have "filterProcessing ts (insert (Name t) m) acc = (acc', m')"
      by (simp add: LoadOrStore_def)
    from Cons.IH [OF this] obtain new where
      m': "m' = insert (Name t) m \<union> Name ` set ts" and
      new: "acc' = acc @ new" "distinct (map Name new)"
        "Name ` set new \<inter> insert (Name t) m = {}" "Name ` set new \<subseteq> m'"
      by blast
    have "m' = m \<union> Name ` set (t # ts)" using m' by simp
    moreover have "Name ` set new \<inter> m = {}" using new(3) by blast
    ultimately show ?thesis using new(1,2,4) by blast
  next
    case False
    with Cons.prems have "filterProcessing ts (insert (Name t) m) (acc @ [t]) = (acc', m')"
      by (simp add: LoadOrStore_def)
    from Cons.IH [OF this] obtain new where
      m': "m' = insert (Name t) m \<union> Name ` set ts" and
      new: "acc' = (acc @ [t]) @ new" "distinct (map Name new)"
        "Name ` set new \<inter> insert (Name t) m = {}" "Name ` set new \<subseteq> m'"
      by blast
    have 1: "acc' = acc @ (t # new)" using new(1) by simp
    have "Name t \<notin> Name ` set new" using new(3) by blast
    then have 2: "distinct (map Name (t # new))" using new(2) by simp
    have 3: "Name ` set (t # new) \<inter> m = {}" using new(3) False by auto
    have 4: "Name ` set (t # new) \<subseteq> m'" using new(4) m' by auto
    have 5: "m' = m \<union> Name ` set (t # ts)" using m' by simp
    from 1 2 3 4 5 show ?thesis by blast
  qed
qed

lemma GetTasks_dispatchedOnce:
  assumes "dispatchedOnce s"
    and "exec lb CallGetTasksCanBeConcurrentlyScheduled s = Some s'"
  shows "dispatchedOnce s'"
proof -
  let ?pr = "reconciler s"
  obtain res pr' where g:
    "GetTasksCanBeConcurrentlyScheduled ?pr (pipeline s) (env s) = (res, pr')"
    by (cases "GetTasksCanBeConcurrentlyScheduled ?pr (pipeline s) (env s)")
  have old: "distinct (returnedNames s)" "set (returnedNames s) \<subseteq> processingTasks ?pr"
    using assms(1) by (simp_all add: dispatchedOnce_def)
  from GetTasks_result [OF g] show ?thesis
  proof
    assume a: "pr' = ?pr \<and> (case res of Inl err \<Rightarrow> True | Inr tasks \<Rightarrow> tasks = [])"
    then have "returnedNames s' = returnedNames s \<and> reconciler s' = reconciler s"
      using assms(2) g by (cases res) (auto simp: exec_def returnedNames_def)
    with old show ?thesis by (simp add: dispatchedOnce_def)
  next
    assume "\<exists>sts tasks. res = Inr tasks \<and>
        filterProcessing sts (processingTasks ?pr) [] = (tasks, processingTasks pr')"
    then obtain sts tasks where res: "res = Inr tasks"
      and filtered: "filterProcessing sts (processingTasks ?pr) [] = (tasks, processingTasks pr')"
      by blast
    from res g assms(2) have s': "s' = s\<lparr>reconciler := pr', returned := returned s @ [tasks]\<rparr>"
      by (simp add: exec_def)
    from filterProcessing_names [OF filtered] have f:
      "distinct (map Name tasks)" "Name ` set tasks \<inter> processingTasks ?pr = {}"
      "Name ` set tasks \<subseteq> processingTasks pr'" "processingTasks ?pr \<subseteq> processingTasks pr'"
      by auto
    have names: "returnedNames s' = returnedNames s @ map Name tasks"
      using s' by (simp add: returnedNames_def)
    have "set (returnedNames s) \<inter> set (map Name tasks) = {}"
      using old(2) f(2) by auto
    with old(1) f(1) have "distinct (returnedNames s')"
      unfolding names by simp
    moreover have "set (returnedNames s') \<subseteq> processingTasks (reconciler s')"
      using old(2) f(3,4) s' unfolding names by auto
    ultimately show ?thesis by (simp add: dispatchedOnce_def)
  qed
qed


lemma exec_frame:
  assumes "exec lb c s = Some s'" and "c \<noteq> CallGetTasksCanBeConcurrentlyScheduled"
  shows "returned s' = returned s \<and>
         processingTasks (reconciler s') = processingTasks (reconciler s)"
proof (cases c)
  case CallPrepareBeforeReconcile
  with assms(1) show ?thesis
    by (cases "PrepareBeforeReconcile lb (reconciler s) (pipeline s) (env s)")
       (auto simp: exec_def)
next
  case CallGetTasksCanBeConcurrentlyScheduled
  with assms(2) show ?thesis by simp
next
  case CallUpdateCurrentReconcileStatusIfNecessary
  with assms(1) show ?thesis
    by (cases "UpdateCurrentReconcileStatusIfNecessary lb (reconciler s) (pipeline s) (env s)")
       (auto simp: exec_def)
next
  case CallCalculatePipelineStatusByAllReconciledTasks
  show ?thesis
  proof (cases "calculatePipelineStatusByAllReconciledTasks lb (reconciler s) (pipeline s) (env s)")
    case (Inl pn)
    with assms(1) CallCalculatePipelineStatusByAllReconciledTasks show ?thesis
      by (simp add: exec_def)
  next
    case (Inr res)
    obtain r pr' where "res = (r, pr')" by (cases res)
    with Inr assms(1) CallCalculatePipelineStatusByAllReconciledTasks calculate_frame [of lb _ _ _ r pr']
    show ?thesis by (auto simp: exec_def)
  qed
next
  case CallCancelReconcile
  with assms(1) show ?thesis by (auto simp: exec_def CancelReconcile_def)
next
  case CallTeardownAfterReconcileDone
  with assms(1) show ?thesis
    by (cases "TeardownAfterReconcileDone lb (reconciler s) (pipeline s) (env s)")
       (auto simp: exec_def)
qed

lemma exec_dispatchedOnce:
  assumes "dispatchedOnce s" and "exec lb c s = Some s'"
  shows "dispatchedOnce s'"
proof (cases "c = CallGetTasksCanBeConcurrentlyScheduled")
  case True
  with assms show ?thesis using GetTasks_dispatchedOnce by blast
next
  case False
  from exec_frame [OF assms(2) False] assms(1) show ?thesis
    by (simp add: dispatchedOnce_def returnedNames_def)
qed

lemma run_dispatchedOnce:
  "dispatchedOnce s \<Longrightarrow> run lb steps s = Some s' \<Longrightarrow> dispatchedOnce s'"
proof (induction steps arbitrary: s)
  case Nil
  then show ?case by simp
next
  case (Cons st steps)
  show ?case
  proof (cases st)
    case (Call c)
    with Cons.prems obtain s1 where s1: "exec lb c s = Some s1" "run lb steps s1 = Some s'"
      by (cases "exec lb c s") auto
    from exec_dispatchedOnce [OF Cons.prems(1) s1(1)] s1(2) show ?thesis
      by (rule Cons.IH)
  next
    case (Environment w)
    with Cons.prems have "run lb steps (s\<lparr>env := w\<rparr>) = Some s'" by simp
    moreover have "dispatchedOnce (s\<lparr>env := w\<rparr>)"
      using Cons.prems(1) by (simp add: dispatchedOnce_def returnedNames_def)
    ultimately show ?thesis by (rule Cons.IH [rotated])
  qed
qed

text \<open>
  Claim C1. Take any run of one reconciler that starts before any task list has been
  returned: any sequence of calls of its methods, with any behaviour of the merger, the
  planner and the store in between. Over all the task lists that
  \<^verbatim>\<open>GetTasksCanBeConcurrentlyScheduled\<close> has returned in the run, every task name
  occurs at most once: the names are pairwise distinct, so the tasks with a given name
  \<open>n\<close> number at most one. The reason is the insert-if-absent into
  \<^verbatim>\<open>processingTasks\<close>, from which no method removes a key.
\<close>

theorem at_most_once_scheduled:
  assumes "run lb steps s = Some s'" and "returned s = []"
  shows "distinct (returnedNames s') \<and>
         length (filter (\<lambda>t. Name t = n) (concat (returned s'))) \<le> 1"
proof -
  have "dispatchedOnce s" using assms(2) by (simp add: dispatchedOnce_def returnedNames_def)
  from run_dispatchedOnce [OF this assms(1)] have d: "distinct (returnedNames s')"
    by (simp add: dispatchedOnce_def)
  then have "length (filter (\<lambda>t. Name t = n) (concat (returned s'))) \<le> 1"
    unfolding returnedNames_def by (rule distinct_map_filter_le1)
  with d show ?thesis by simp
qed

theorem at_most_once_scheduled_witness:
  "run specLib
     [Call CallGetTasksCanBeConcurrentlyScheduled, Environment world0,
      Call CallGetTasksCanBeConcurrentlyScheduled] config0 =
     Some (config0\<lparr>reconciler := reconciler0\<lparr>processingTasks := {''b'', ''a''}\<rparr>,
             returned := [[task ''a'' PipelineStatusQueue, task ''b'' PipelineStatusQueue], []]\<rparr>) \<and>
   returned config0 = [] \<and>
   distinct (returnedNames
     (config0\<lparr>reconciler := reconciler0\<lparr>processingTasks := {''b'', ''a''}\<rparr>,
             returned := [[task ''a'' PipelineStatusQueue, task ''b'' PipelineStatusQueue], []]\<rparr>)) \<and>
   length (filter (\<lambda>t. Name t = ''a'')
     (concat (returned
       (config0\<lparr>reconciler := reconciler0\<lparr>processingTasks := {''b'', ''a''}\<rparr>,
             returned := [[task ''a'' PipelineStatusQueue, task ''b'' PipelineStatusQueue], []]\<rparr>)))) \<le> 1"
proof -
  have r: "run specLib
     [Call CallGetTasksCanBeConcurrentlyScheduled, Environment world0,
      Call CallGetTasksCanBeConcurrentlyScheduled] config0 =
     Some (config0\<lparr>reconciler := reconciler0\<lparr>processingTasks := {''b'', ''a''}\<rparr>,
             returned := [[task ''a'' PipelineStatusQueue, task ''b'' PipelineStatusQueue], []]\<rparr>)"
    by (auto simp add: exec_def GetTasksCanBeConcurrentlyScheduled_def LoadOrStore_def
          config0_def world0_def reconciler0_def task_def)
  have e: "returned config0 = []" by (simp add: config0_def)
  from r e at_most_once_scheduled [OF r e, of "''a''"] show ?thesis by (intro conjI) simp_all
qed

subsection \<open>Persisting the status\<close>

lemmas update_defs = UpdateCurrentReconcileStatusIfNecessary_def updateStatusIfChanged_def
  UpdatePipelineBaseStatus_def storeWrite_def emit_def Let_def

lemma updateStatusIfChanged_same:
  "Status (Base p) = c \<Longrightarrow> updateStatusIfChanged c p w = (None, p, w)"
  by (simp add: updateStatusIfChanged_def)

lemma updateStatusIfChanged_fail:
  "Status (Base p) \<noteq> c \<Longrightarrow> storeResult w (storeCalls w) = Some err \<Longrightarrow>
     updateStatusIfChanged c p w =
       (Some err, p,
        w\<lparr>storeCalls := Suc (storeCalls w),
          trace := trace w @ [EvUpdatePipelineBaseStatus (ID (Base p)) c (Some err)]\<rparr>)"
  by (simp add: updateStatusIfChanged_def UpdatePipelineBaseStatus_def storeWrite_def Let_def)

lemma updateStatusIfChanged_ok:
  "Status (Base p) \<noteq> c \<Longrightarrow> storeResult w (storeCalls w) = None \<Longrightarrow>
     updateStatusIfChanged c p w =
       (None, p\<lparr>Base := (Base p)\<lparr>Status := c\<rparr>\<rparr>,
        w\<lparr>storeCalls := Suc (storeCalls w),
          trace := trace w @
            [EvUpdatePipelineBaseStatus (ID (Base p)) c None,
             EvEmitPipelineInstanceEvent (p\<lparr>Base := (Base p)\<lparr>Status := c\<rparr>\<rparr>)]\<rparr>)"
  by (simp add: updateStatusIfChanged_def UpdatePipelineBaseStatus_def storeWrite_def emit_def Let_def)

text \<open>What the method does, by the status it decides on.\<close>

lemma Update_end:
  "IsEndStatus lb (calculatedPipelineStatusByAllReconciledTasks pr) \<Longrightarrow>
     UpdateCurrentReconcileStatusIfNecessary lb pr p w =
       updateStatusIfChanged (calculatedPipelineStatusByAllReconciledTasks pr) p w"
  by (simp add: UpdateCurrentReconcileStatusIfNecessary_def)

lemma Update_merge_error:
  "\<not> IsEndStatus lb (calculatedPipelineStatusByAllReconciledTasks pr) \<Longrightarrow>
     ymlTaskMergeDBTasks w p = Inl err \<Longrightarrow>
     UpdateCurrentReconcileStatusIfNecessary lb pr p w = (Some err, p, w)"
  by (simp add: UpdateCurrentReconcileStatusIfNecessary_def)

lemma Update_not_done:
  "\<not> IsEndStatus lb (calculatedPipelineStatusByAllReconciledTasks pr) \<Longrightarrow>
     ymlTaskMergeDBTasks w p = Inr allTasks \<Longrightarrow>
     \<not> CalculatePipelineTaskAllDone lb allTasks \<Longrightarrow>
     UpdateCurrentReconcileStatusIfNecessary lb pr p w = (None, p, w)"
  by (simp add: UpdateCurrentReconcileStatusIfNecessary_def)

lemma Update_all_done:
  "\<not> IsEndStatus lb (calculatedPipelineStatusByAllReconciledTasks pr) \<Longrightarrow>
     ymlTaskMergeDBTasks w p = Inr allTasks \<Longrightarrow>
     CalculatePipelineTaskAllDone lb allTasks \<Longrightarrow>
     UpdateCurrentReconcileStatusIfNecessary lb pr p w =
       updateStatusIfChanged (CalculatePipelineStatusV2 lb allTasks) p w"
  by (simp add: UpdateCurrentReconcileStatusIfNecessary_def)

text \<open>
  Either the method changes nothing, or it reaches the write with a status \<open>c\<close> that is
  not the pipeline's own.
\<close>

lemma Update_cases:
  obtains (unchanged) r where "UpdateCurrentReconcileStatusIfNecessary lb pr p w = (r, p, w)"
      "r \<noteq> None \<longrightarrow> \<not> IsEndStatus lb (calculatedPipelineStatusByAllReconciledTasks pr)"
  | (attempt) c where "c \<noteq> Status (Base p)"
      "UpdateCurrentReconcileStatusIfNecessary lb pr p w = updateStatusIfChanged c p w"
      "(IsEndStatus lb (calculatedPipelineStatusByAllReconciledTasks pr)
              \<and> c = calculatedPipelineStatusByAllReconciledTasks pr) \<or>
           (\<not> IsEndStatus lb (calculatedPipelineStatusByAllReconciledTasks pr) \<and>
             (\<exists>allTasks. ymlTaskMergeDBTasks w p = Inr allTasks \<and>
                CalculatePipelineTaskAllDone lb allTasks \<and>
                c = CalculatePipelineStatusV2 lb allTasks))"
proof (cases "IsEndStatus lb (calculatedPipelineStatusByAllReconciledTasks pr)")
  case True
  show ?thesis
  proof (cases "Status (Base p) = calculatedPipelineStatusByAllReconciledTasks pr")
    case same: True
    from Update_end [OF True, of p w] updateStatusIfChanged_same [OF same, of w]
    show ?thesis by (intro unchanged [of None]) simp_all
  next
    case False
    with True Update_end [OF True, of p w] show ?thesis
      by (intro attempt [of "calculatedPipelineStatusByAllReconciledTasks pr"]) auto
  qed
next
  case notEnd: False
  show ?thesis
  proof (cases "ymlTaskMergeDBTasks w p")
    case (Inl err)
    from Update_merge_error [OF notEnd Inl] notEnd show ?thesis
      by (intro unchanged [of "Some err"]) simp_all
  next
    case (Inr allTasks)
    show ?thesis
    proof (cases "CalculatePipelineTaskAllDone lb allTasks")
      case False
      from Update_not_done [OF notEnd Inr False] show ?thesis
        by (intro unchanged [of None]) simp_all
    next
      case True
      show ?thesis
      proof (cases "Status (Base p) = CalculatePipelineStatusV2 lb allTasks")
        case same: True
        from Update_all_done [OF notEnd Inr True] updateStatusIfChanged_same [OF same, of w]
        show ?thesis by (intro unchanged [of None]) simp_all
      next
        case False
        with notEnd Inr True Update_all_done [OF notEnd Inr True] show ?thesis
          by (intro attempt [of "CalculatePipelineStatusV2 lb allTasks"]) auto
      qed
    qed
  qed
qed

text \<open>
  Claim C3. \<^verbatim>\<open>UpdateCurrentReconcileStatusIfNecessary\<close> changes the pipeline object
  or the world (the store write and the event are the only changes it can make) only
  when the cached aggregated status is terminal and differs from the pipeline's status,
  or the merged view has every task done and its reduction differs from the pipeline's
  status. When the cached status is not terminal and the merged view has a task that is
  not done, it returns \<^verbatim>\<open>nil\<close> and leaves the pipeline object and the world as they
  were.
\<close>

theorem update_only_when_necessary:
  assumes "UpdateCurrentReconcileStatusIfNecessary lb pr p w = (r, p', w')"
  shows "(p' \<noteq> p \<or> w' \<noteq> w \<longrightarrow>
            (IsEndStatus lb (calculatedPipelineStatusByAllReconciledTasks pr) \<and>
               calculatedPipelineStatusByAllReconciledTasks pr \<noteq> Status (Base p)) \<or>
            (\<exists>allTasks. ymlTaskMergeDBTasks w p = Inr allTasks \<and>
               CalculatePipelineTaskAllDone lb allTasks \<and>
               CalculatePipelineStatusV2 lb allTasks \<noteq> Status (Base p))) \<and>
         (\<not> IsEndStatus lb (calculatedPipelineStatusByAllReconciledTasks pr) \<and>
            (\<exists>allTasks. ymlTaskMergeDBTasks w p = Inr allTasks \<and>
               \<not> CalculatePipelineTaskAllDone lb allTasks) \<longrightarrow>
            r = None \<and> p' = p \<and> w' = w)"
proof (rule conjI)
  show "p' \<noteq> p \<or> w' \<noteq> w \<longrightarrow>
            (IsEndStatus lb (calculatedPipelineStatusByAllReconciledTasks pr) \<and>
               calculatedPipelineStatusByAllReconciledTasks pr \<noteq> Status (Base p)) \<or>
            (\<exists>allTasks. ymlTaskMergeDBTasks w p = Inr allTasks \<and>
               CalculatePipelineTaskAllDone lb allTasks \<and>
               CalculatePipelineStatusV2 lb allTasks \<noteq> Status (Base p))"
  proof (cases rule: Update_cases [of lb pr p w])
    case (unchanged r0)
    with assms show ?thesis by simp
  next
    case (attempt c)
    then show ?thesis by blast
  qed
next
  show "\<not> IsEndStatus lb (calculatedPipelineStatusByAllReconciledTasks pr) \<and>
            (\<exists>allTasks. ymlTaskMergeDBTasks w p = Inr allTasks \<and>
               \<not> CalculatePipelineTaskAllDone lb allTasks) \<longrightarrow>
            r = None \<and> p' = p \<and> w' = w"
  proof
    assume a: "\<not> IsEndStatus lb (calculatedPipelineStatusByAllReconciledTasks pr) \<and>
            (\<exists>allTasks. ymlTaskMergeDBTasks w p = Inr allTasks \<and>
               \<not> CalculatePipelineTaskAllDone lb allTasks)"
    then obtain allTasks where "ymlTaskMergeDBTasks w p = Inr allTasks"
      "\<not> CalculatePipelineTaskAllDone lb allTasks" by blast
    with a Update_not_done [of lb pr w p allTasks] assms show "r = None \<and> p' = p \<and> w' = w"
      by simp
  qed
qed

theorem update_only_when_necessary_witness:
  "UpdateCurrentReconcileStatusIfNecessary specLib
       (reconciler0\<lparr>calculatedPipelineStatusByAllReconciledTasks := PipelineStatusSuccess\<rparr>)
       pipeline1 world0 =
     (None, pipeline1\<lparr>Base := (Base pipeline1)\<lparr>Status := PipelineStatusSuccess\<rparr>\<rparr>,
      world0\<lparr>storeCalls := 1,
        trace := [EvUpdatePipelineBaseStatus 1 PipelineStatusSuccess None,
                  EvEmitPipelineInstanceEvent
                    (pipeline1\<lparr>Base := (Base pipeline1)\<lparr>Status := PipelineStatusSuccess\<rparr>\<rparr>)]\<rparr>) \<and>
   pipeline1\<lparr>Base := (Base pipeline1)\<lparr>Status := PipelineStatusSuccess\<rparr>\<rparr> \<noteq> pipeline1 \<and>
   ((IsEndStatus specLib PipelineStatusSuccess \<and>
       PipelineStatusSuccess \<noteq> Status (Base pipeline1)) \<or>
    (\<exists>allTasks. ymlTaskMergeDBTasks world0 pipeline1 = Inr allTasks \<and>
       CalculatePipelineTaskAllDone specLib allTasks \<and>
       CalculatePipelineStatusV2 specLib allTasks \<noteq> Status (Base pipeline1))) \<and>
   \<not> IsEndStatus specLib (calculatedPipelineStatusByAllReconciledTasks reconciler0) \<and>
   (\<exists>allTasks. ymlTaskMergeDBTasks world0 pipeline1 = Inr allTasks \<and>
      \<not> CalculatePipelineTaskAllDone specLib allTasks) \<and>
   UpdateCurrentReconcileStatusIfNecessary specLib reconciler0 pipeline1 world0 =
     (None, pipeline1, world0)"
proof -
  let ?pr = "reconciler0\<lparr>calculatedPipelineStatusByAllReconciledTasks := PipelineStatusSuccess\<rparr>"
  let ?p' = "pipeline1\<lparr>Base := (Base pipeline1)\<lparr>Status := PipelineStatusSuccess\<rparr>\<rparr>"
  let ?w' = "world0\<lparr>storeCalls := 1,
        trace := [EvUpdatePipelineBaseStatus 1 PipelineStatusSuccess None,
                  EvEmitPipelineInstanceEvent ?p']\<rparr>"
  have e: "UpdateCurrentReconcileStatusIfNecessary specLib ?pr pipeline1 world0 = (None, ?p', ?w')"
    by (simp add: UpdateCurrentReconcileStatusIfNecessary_def updateStatusIfChanged_def
          UpdatePipelineBaseStatus_def storeWrite_def emit_def Let_def example_defs)
  have h: "?p' \<noteq> pipeline1 \<or> ?w' \<noteq> world0"
    by (simp add: example_defs)
  from update_only_when_necessary [OF e, THEN conjunct1, THEN mp, OF h]
  have c: "(IsEndStatus specLib PipelineStatusSuccess \<and>
       PipelineStatusSuccess \<noteq> Status (Base pipeline1)) \<or>
    (\<exists>allTasks. ymlTaskMergeDBTasks world0 pipeline1 = Inr allTasks \<and>
       CalculatePipelineTaskAllDone specLib allTasks \<and>
       CalculatePipelineStatusV2 specLib allTasks \<noteq> Status (Base pipeline1))"
    by simp
  have n: "\<not> IsEndStatus specLib (calculatedPipelineStatusByAllReconciledTasks reconciler0) \<and>
     (\<exists>allTasks. ymlTaskMergeDBTasks world0 pipeline1 = Inr allTasks \<and>
        \<not> CalculatePipelineTaskAllDone specLib allTasks)"
    by (simp add: example_defs)
  obtain r p' w' where u:
    "UpdateCurrentReconcileStatusIfNecessary specLib reconciler0 pipeline1 world0 = (r, p', w')"
    by (cases "UpdateCurrentReconcileStatusIfNecessary specLib reconciler0 pipeline1 world0")
  from update_only_when_necessary [OF u, THEN conjunct2, THEN mp, OF n] u
  have u': "UpdateCurrentReconcileStatusIfNecessary specLib reconciler0 pipeline1 world0 =
     (None, pipeline1, world0)" by simp
  have d: "?p' \<noteq> pipeline1" by (simp add: example_defs)
  from e d c n u' show ?thesis by blast
qed


text \<open>
  Claim C8. Apply \<^verbatim>\<open>UpdateCurrentReconcileStatusIfNecessary\<close> twice while the merger
  answers the same. If the first call returns \<^verbatim>\<open>nil\<close>, the second call returns
  \<^verbatim>\<open>nil\<close> and changes nothing: no store write and no event. The first call has made
  at most one store write and emitted at most one event.
\<close>

theorem update_twice_writes_once:
  assumes "UpdateCurrentReconcileStatusIfNecessary lb pr p w = (None, p1, w1)"
    and "ymlTaskMergeDBTasks w p1 = ymlTaskMergeDBTasks w p"
  shows "UpdateCurrentReconcileStatusIfNecessary lb pr p1 w1 = (None, p1, w1) \<and>
         length (filter isStoreWrite (trace w1)) \<le> Suc (length (filter isStoreWrite (trace w))) \<and>
         length (filter isEvent (trace w1)) \<le> Suc (length (filter isEvent (trace w)))"
proof (cases rule: Update_cases [of lb pr p w])
  case (unchanged r0)
  with assms(1) have "p1 = p" "w1 = w" by simp_all
  with assms(1) show ?thesis by simp
next
  case (attempt c)
  with assms(1) have u: "updateStatusIfChanged c p w = (None, p1, w1)" by simp
  have ok: "storeResult w (storeCalls w) = None"
  proof (cases "storeResult w (storeCalls w)")
    case None
    then show ?thesis .
  next
    case (Some err)
    from updateStatusIfChanged_fail [OF attempt(1) [symmetric] Some] u show ?thesis by simp
  qed
  from updateStatusIfChanged_ok [OF attempt(1) [symmetric] ok] u have
    p1: "p1 = p\<lparr>Base := (Base p)\<lparr>Status := c\<rparr>\<rparr>" and
    w1: "w1 = w\<lparr>storeCalls := Suc (storeCalls w),
          trace := trace w @
            [EvUpdatePipelineBaseStatus (ID (Base p)) c None,
             EvEmitPipelineInstanceEvent (p\<lparr>Base := (Base p)\<lparr>Status := c\<rparr>\<rparr>)]\<rparr>"
    by simp_all
  have st: "Status (Base p1) = c" using p1 by simp
  have m: "ymlTaskMergeDBTasks w1 p1 = ymlTaskMergeDBTasks w p" using w1 assms(2) by simp
  have "UpdateCurrentReconcileStatusIfNecessary lb pr p1 w1 = updateStatusIfChanged c p1 w1"
    using attempt(3)
  proof
    assume "IsEndStatus lb (calculatedPipelineStatusByAllReconciledTasks pr) \<and>
            c = calculatedPipelineStatusByAllReconciledTasks pr"
    with Update_end [of lb pr p1 w1] show ?thesis by simp
  next
    assume a: "\<not> IsEndStatus lb (calculatedPipelineStatusByAllReconciledTasks pr) \<and>
             (\<exists>allTasks. ymlTaskMergeDBTasks w p = Inr allTasks \<and>
                CalculatePipelineTaskAllDone lb allTasks \<and>
                c = CalculatePipelineStatusV2 lb allTasks)"
    then obtain allTasks where t: "ymlTaskMergeDBTasks w p = Inr allTasks"
      "CalculatePipelineTaskAllDone lb allTasks" "c = CalculatePipelineStatusV2 lb allTasks"
      by blast
    from a t m Update_all_done [of lb pr w1 p1 allTasks] show ?thesis by simp
  qed
  with updateStatusIfChanged_same [OF st, of w1]
  have "UpdateCurrentReconcileStatusIfNecessary lb pr p1 w1 = (None, p1, w1)" by simp
  moreover have "length (filter isStoreWrite (trace w1)) \<le> Suc (length (filter isStoreWrite (trace w)))"
    using w1 by (simp add: isStoreWrite_def)
  moreover have "length (filter isEvent (trace w1)) \<le> Suc (length (filter isEvent (trace w)))"
    using w1 by (simp add: isEvent_def)
  ultimately show ?thesis by simp
qed

theorem update_twice_writes_once_witness:
  "UpdateCurrentReconcileStatusIfNecessary specLib
       (reconciler0\<lparr>calculatedPipelineStatusByAllReconciledTasks := PipelineStatusSuccess\<rparr>)
       pipeline1 world0 =
     (None, pipeline1\<lparr>Base := (Base pipeline1)\<lparr>Status := PipelineStatusSuccess\<rparr>\<rparr>,
      world0\<lparr>storeCalls := 1,
        trace := [EvUpdatePipelineBaseStatus 1 PipelineStatusSuccess None,
                  EvEmitPipelineInstanceEvent
                    (pipeline1\<lparr>Base := (Base pipeline1)\<lparr>Status := PipelineStatusSuccess\<rparr>\<rparr>)]\<rparr>) \<and>
   ymlTaskMergeDBTasks world0
       (pipeline1\<lparr>Base := (Base pipeline1)\<lparr>Status := PipelineStatusSuccess\<rparr>\<rparr>) =
     ymlTaskMergeDBTasks world0 pipeline1 \<and>
   UpdateCurrentReconcileStatusIfNecessary specLib
       (reconciler0\<lparr>calculatedPipelineStatusByAllReconciledTasks := PipelineStatusSuccess\<rparr>)
       (pipeline1\<lparr>Base := (Base pipeline1)\<lparr>Status := PipelineStatusSuccess\<rparr>\<rparr>)
       (world0\<lparr>storeCalls := 1,
        trace := [EvUpdatePipelineBaseStatus 1 PipelineStatusSuccess None,
                  EvEmitPipelineInstanceEvent
                    (pipeline1\<lparr>Base := (Base pipeline1)\<lparr>Status := PipelineStatusSuccess\<rparr>\<rparr>)]\<rparr>) =
     (None, pipeline1\<lparr>Base := (Base pipeline1)\<lparr>Status := PipelineStatusSuccess\<rparr>\<rparr>,
      world0\<lparr>storeCalls := 1,
        trace := [EvUpdatePipelineBaseStatus 1 PipelineStatusSuccess None,
                  EvEmitPipelineInstanceEvent
                    (pipeline1\<lparr>Base := (Base pipeline1)\<lparr>Status := PipelineStatusSuccess\<rparr>\<rparr>)]\<rparr>)"
proof -
  let ?pr = "reconciler0\<lparr>calculatedPipelineStatusByAllReconciledTasks := PipelineStatusSuccess\<rparr>"
  let ?p' = "pipeline1\<lparr>Base := (Base pipeline1)\<lparr>Status := PipelineStatusSuccess\<rparr>\<rparr>"
  let ?w' = "world0\<lparr>storeCalls := 1,
        trace := [EvUpdatePipelineBaseStatus 1 PipelineStatusSuccess None,
                  EvEmitPipelineInstanceEvent ?p']\<rparr>"
  have e: "UpdateCurrentReconcileStatusIfNecessary specLib ?pr pipeline1 world0 = (None, ?p', ?w')"
    by (simp add: update_defs example_defs)
  have m: "ymlTaskMergeDBTasks world0 ?p' = ymlTaskMergeDBTasks world0 pipeline1"
    by (simp add: world0_def)
  from e m update_twice_writes_once [OF e m, THEN conjunct1] show ?thesis by blast
qed


text \<open>
  Claim C10. If \<^verbatim>\<open>UpdateCurrentReconcileStatusIfNecessary\<close> calls the store and the
  store answers with an error, the method returns that error, the pipeline object is
  unchanged, and the only effect is the failed write: no event. Called again, the method
  attempts the same write of the same status, and emits the event if that write succeeds.
\<close>

theorem update_store_failure:
  assumes "UpdateCurrentReconcileStatusIfNecessary lb pr p w = (r, p', w')"
    and "storeCalls w' \<noteq> storeCalls w"
    and "storeResult w (storeCalls w) = Some err"
  shows "r = Some err \<and> p' = p \<and>
         (\<exists>c. c \<noteq> Status (Base p) \<and>
            w' = w\<lparr>storeCalls := Suc (storeCalls w),
                   trace := trace w @ [EvUpdatePipelineBaseStatus (ID (Base p)) c (Some err)]\<rparr> \<and>
            UpdateCurrentReconcileStatusIfNecessary lb pr p w' =
              (case storeResult w (Suc (storeCalls w)) of
                 Some err2 \<Rightarrow>
                   (Some err2, p,
                    w'\<lparr>storeCalls := Suc (Suc (storeCalls w)),
                       trace := trace w' @
                         [EvUpdatePipelineBaseStatus (ID (Base p)) c (Some err2)]\<rparr>)
               | None \<Rightarrow>
                   (None, p\<lparr>Base := (Base p)\<lparr>Status := c\<rparr>\<rparr>,
                    w'\<lparr>storeCalls := Suc (Suc (storeCalls w)),
                       trace := trace w' @
                         [EvUpdatePipelineBaseStatus (ID (Base p)) c None,
                          EvEmitPipelineInstanceEvent (p\<lparr>Base := (Base p)\<lparr>Status := c\<rparr>\<rparr>)]\<rparr>)))"
proof (cases rule: Update_cases [of lb pr p w])
  case (unchanged r0)
  with assms(1,2) show ?thesis by simp
next
  case (attempt c)
  from updateStatusIfChanged_fail [OF attempt(1) [symmetric] assms(3)] attempt(2) assms(1)
  have r: "r = Some err" "p' = p" and
    w': "w' = w\<lparr>storeCalls := Suc (storeCalls w),
                   trace := trace w @ [EvUpdatePipelineBaseStatus (ID (Base p)) c (Some err)]\<rparr>"
    by simp_all
  have m: "ymlTaskMergeDBTasks w' p = ymlTaskMergeDBTasks w p" using w' by simp
  have again: "UpdateCurrentReconcileStatusIfNecessary lb pr p w' = updateStatusIfChanged c p w'"
    using attempt(3)
  proof
    assume "IsEndStatus lb (calculatedPipelineStatusByAllReconciledTasks pr) \<and>
            c = calculatedPipelineStatusByAllReconciledTasks pr"
    with Update_end [of lb pr p w'] show ?thesis by simp
  next
    assume a: "\<not> IsEndStatus lb (calculatedPipelineStatusByAllReconciledTasks pr) \<and>
             (\<exists>allTasks. ymlTaskMergeDBTasks w p = Inr allTasks \<and>
                CalculatePipelineTaskAllDone lb allTasks \<and>
                c = CalculatePipelineStatusV2 lb allTasks)"
    then obtain allTasks where t: "ymlTaskMergeDBTasks w p = Inr allTasks"
      "CalculatePipelineTaskAllDone lb allTasks" "c = CalculatePipelineStatusV2 lb allTasks"
      by blast
    from a t m Update_all_done [of lb pr w' p allTasks] show ?thesis by simp
  qed
  have sc: "storeCalls w' = Suc (storeCalls w)" "storeResult w' = storeResult w"
    using w' by simp_all
  have "UpdateCurrentReconcileStatusIfNecessary lb pr p w' =
              (case storeResult w (Suc (storeCalls w)) of
                 Some err2 \<Rightarrow>
                   (Some err2, p,
                    w'\<lparr>storeCalls := Suc (Suc (storeCalls w)),
                       trace := trace w' @
                         [EvUpdatePipelineBaseStatus (ID (Base p)) c (Some err2)]\<rparr>)
               | None \<Rightarrow>
                   (None, p\<lparr>Base := (Base p)\<lparr>Status := c\<rparr>\<rparr>,
                    w'\<lparr>storeCalls := Suc (Suc (storeCalls w)),
                       trace := trace w' @
                         [EvUpdatePipelineBaseStatus (ID (Base p)) c None,
                          EvEmitPipelineInstanceEvent (p\<lparr>Base := (Base p)\<lparr>Status := c\<rparr>\<rparr>)]\<rparr>))"
  proof (cases "storeResult w (Suc (storeCalls w))")
    case None
    with sc have "storeResult w' (storeCalls w') = None" by simp
    from updateStatusIfChanged_ok [OF attempt(1) [symmetric] this] again None sc show ?thesis
      by simp
  next
    case (Some err2)
    with sc have "storeResult w' (storeCalls w') = Some err2" by simp
    from updateStatusIfChanged_fail [OF attempt(1) [symmetric] this] again Some sc show ?thesis
      by simp
  qed
  with r w' attempt(1) show ?thesis by blast
qed

theorem update_store_failure_witness:
  "UpdateCurrentReconcileStatusIfNecessary specLib
       (reconciler0\<lparr>calculatedPipelineStatusByAllReconciledTasks := PipelineStatusSuccess\<rparr>)
       pipeline1 (worldFailing 1) =
     (Some ''store down'', pipeline1,
      (worldFailing 1)\<lparr>storeCalls := 1,
        trace := [EvUpdatePipelineBaseStatus 1 PipelineStatusSuccess (Some ''store down'')]\<rparr>) \<and>
   storeCalls ((worldFailing 1)\<lparr>storeCalls := 1,
        trace := [EvUpdatePipelineBaseStatus 1 PipelineStatusSuccess (Some ''store down'')]\<rparr>)
     \<noteq> storeCalls (worldFailing 1) \<and>
   storeResult (worldFailing 1) (storeCalls (worldFailing 1)) = Some ''store down'' \<and>
   UpdateCurrentReconcileStatusIfNecessary specLib
       (reconciler0\<lparr>calculatedPipelineStatusByAllReconciledTasks := PipelineStatusSuccess\<rparr>)
       pipeline1
       ((worldFailing 1)\<lparr>storeCalls := 1,
        trace := [EvUpdatePipelineBaseStatus 1 PipelineStatusSuccess (Some ''store down'')]\<rparr>) =
     (None, pipeline1\<lparr>Base := (Base pipeline1)\<lparr>Status := PipelineStatusSuccess\<rparr>\<rparr>,
      (worldFailing 1)\<lparr>storeCalls := 2,
        trace := [EvUpdatePipelineBaseStatus 1 PipelineStatusSuccess (Some ''store down''),
                  EvUpdatePipelineBaseStatus 1 PipelineStatusSuccess None,
                  EvEmitPipelineInstanceEvent
                    (pipeline1\<lparr>Base := (Base pipeline1)\<lparr>Status := PipelineStatusSuccess\<rparr>\<rparr>)]\<rparr>)"
proof -
  let ?pr = "reconciler0\<lparr>calculatedPipelineStatusByAllReconciledTasks := PipelineStatusSuccess\<rparr>"
  let ?w' = "(worldFailing 1)\<lparr>storeCalls := 1,
        trace := [EvUpdatePipelineBaseStatus 1 PipelineStatusSuccess (Some ''store down'')]\<rparr>"
  have e: "UpdateCurrentReconcileStatusIfNecessary specLib ?pr pipeline1 (worldFailing 1) =
      (Some ''store down'', pipeline1, ?w')"
    by (simp add: update_defs example_defs)
  have c: "storeCalls ?w' \<noteq> storeCalls (worldFailing 1)"
    by (simp add: example_defs)
  have f: "storeResult (worldFailing 1) (storeCalls (worldFailing 1)) = Some ''store down''"
    by (simp add: example_defs)
  from update_store_failure [OF e c f] obtain c0 where
    c0: "?w' = (worldFailing 1)\<lparr>storeCalls := Suc (storeCalls (worldFailing 1)),
                   trace := trace (worldFailing 1) @
                     [EvUpdatePipelineBaseStatus (ID (Base pipeline1)) c0 (Some ''store down'')]\<rparr>"
    and again: "UpdateCurrentReconcileStatusIfNecessary specLib ?pr pipeline1 ?w' =
              (case storeResult (worldFailing 1) (Suc (storeCalls (worldFailing 1))) of
                 Some err2 \<Rightarrow>
                   (Some err2, pipeline1,
                    ?w'\<lparr>storeCalls := Suc (Suc (storeCalls (worldFailing 1))),
                       trace := trace ?w' @
                         [EvUpdatePipelineBaseStatus (ID (Base pipeline1)) c0 (Some err2)]\<rparr>)
               | None \<Rightarrow>
                   (None, pipeline1\<lparr>Base := (Base pipeline1)\<lparr>Status := c0\<rparr>\<rparr>,
                    ?w'\<lparr>storeCalls := Suc (Suc (storeCalls (worldFailing 1))),
                       trace := trace ?w' @
                         [EvUpdatePipelineBaseStatus (ID (Base pipeline1)) c0 None,
                          EvEmitPipelineInstanceEvent
                            (pipeline1\<lparr>Base := (Base pipeline1)\<lparr>Status := c0\<rparr>\<rparr>)]\<rparr>))"
    by blast
  have "trace ?w' = trace ((worldFailing 1)\<lparr>storeCalls := Suc (storeCalls (worldFailing 1)),
                   trace := trace (worldFailing 1) @
                     [EvUpdatePipelineBaseStatus (ID (Base pipeline1)) c0 (Some ''store down'')]\<rparr>)"
    using c0 by simp
  then have "c0 = PipelineStatusSuccess" by (simp add: worldFailing_def world0_def)
  with again have "UpdateCurrentReconcileStatusIfNecessary specLib ?pr pipeline1 ?w' =
     (None, pipeline1\<lparr>Base := (Base pipeline1)\<lparr>Status := PipelineStatusSuccess\<rparr>\<rparr>,
      (worldFailing 1)\<lparr>storeCalls := 2,
        trace := [EvUpdatePipelineBaseStatus 1 PipelineStatusSuccess (Some ''store down''),
                  EvUpdatePipelineBaseStatus 1 PipelineStatusSuccess None,
                  EvEmitPipelineInstanceEvent
                    (pipeline1\<lparr>Base := (Base pipeline1)\<lparr>Status := PipelineStatusSuccess\<rparr>\<rparr>)]\<rparr>)"
    by (simp add: worldFailing_def world0_def pipeline1_def)
  with e c f show ?thesis by blast
qed

subsection \<open>The overrides of the aggregator\<close>

lemmas calculate_defs = calculatePipelineStatusByAllReconciledTasks_def
  setFlagHaveTaskIfNotSet_def considerSpecialCases_def

text \<open>
  Claim C2. Let the canceling flag be set when the aggregator runs, and let the aggregator
  get its task lists (the merger, if it is asked, and the task-row query answer). Then the
  aggregator returns \<^verbatim>\<open>nil\<close> and the aggregated status is \<^verbatim>\<open>StopByUser\<close>, whatever
  the reduction of the task rows is. If \<^verbatim>\<open>StopByUser\<close> is a terminal status, a later
  call of \<^verbatim>\<open>UpdateCurrentReconcileStatusIfNecessary\<close> that returns \<^verbatim>\<open>nil\<close> leaves the
  pipeline with status \<^verbatim>\<open>StopByUser\<close>: either it had that status already and nothing
  is written, or \<^verbatim>\<open>StopByUser\<close> is written to the store successfully and the event is
  emitted.
\<close>

theorem canceling_overrides_to_StopByUser:
  assumes "flagCanceling pr"
    and "setFlagHaveTaskIfNotSet pr p w = Inr pr1"
    and "ListPipelineTasksByPipelineID w (ID (Base p)) = Inr tasks"
  shows "\<exists>pr'. calculatePipelineStatusByAllReconciledTasks lb pr p w = Inr (None, pr') \<and>
           calculatedPipelineStatusByAllReconciledTasks pr' = PipelineStatusStopByUser \<and>
           (IsEndStatus lb PipelineStatusStopByUser \<longrightarrow>
            UpdateCurrentReconcileStatusIfNecessary lb pr' p2 w2 = (None, p3, w3) \<longrightarrow>
              Status (Base p3) = PipelineStatusStopByUser \<and>
              (Status (Base p2) = PipelineStatusStopByUser \<longrightarrow> p3 = p2 \<and> w3 = w2) \<and>
              (Status (Base p2) \<noteq> PipelineStatusStopByUser \<longrightarrow>
                 p3 = p2\<lparr>Base := (Base p2)\<lparr>Status := PipelineStatusStopByUser\<rparr>\<rparr> \<and>
                 w3 = w2\<lparr>storeCalls := Suc (storeCalls w2),
                        trace := trace w2 @
                          [EvUpdatePipelineBaseStatus (ID (Base p2)) PipelineStatusStopByUser None,
                           EvEmitPipelineInstanceEvent p3]\<rparr>))"
proof -
  let ?pr' = "pr1\<lparr>calculatedPipelineStatusByAllReconciledTasks := PipelineStatusStopByUser\<rparr>"
  from calculate_result [OF assms(2,3), of lb] assms(1)
  have c: "calculatePipelineStatusByAllReconciledTasks lb pr p w = Inr (None, ?pr')" by simp
  have s: "calculatedPipelineStatusByAllReconciledTasks ?pr' = PipelineStatusStopByUser" by simp
  have "Status (Base p3) = PipelineStatusStopByUser \<and>
        (Status (Base p2) = PipelineStatusStopByUser \<longrightarrow> p3 = p2 \<and> w3 = w2) \<and>
        (Status (Base p2) \<noteq> PipelineStatusStopByUser \<longrightarrow>
           p3 = p2\<lparr>Base := (Base p2)\<lparr>Status := PipelineStatusStopByUser\<rparr>\<rparr> \<and>
           w3 = w2\<lparr>storeCalls := Suc (storeCalls w2),
                  trace := trace w2 @
                    [EvUpdatePipelineBaseStatus (ID (Base p2)) PipelineStatusStopByUser None,
                     EvEmitPipelineInstanceEvent p3]\<rparr>)"
    if e: "IsEndStatus lb PipelineStatusStopByUser"
      and u: "UpdateCurrentReconcileStatusIfNecessary lb ?pr' p2 w2 = (None, p3, w3)"
  proof -
    from e have "IsEndStatus lb (calculatedPipelineStatusByAllReconciledTasks ?pr')" by simp
    from Update_end [OF this, of p2 w2] u
    have u': "updateStatusIfChanged PipelineStatusStopByUser p2 w2 = (None, p3, w3)" by simp
    show ?thesis
    proof (cases "Status (Base p2) = PipelineStatusStopByUser")
      case True
      from updateStatusIfChanged_same [OF True, of w2] u' True show ?thesis by simp
    next
      case False
      have ok: "storeResult w2 (storeCalls w2) = None"
      proof (cases "storeResult w2 (storeCalls w2)")
        case None
        then show ?thesis .
      next
        case (Some err)
        from updateStatusIfChanged_fail [OF False Some] u' show ?thesis by simp
      qed
      from updateStatusIfChanged_ok [OF False ok] u' False show ?thesis by auto
    qed
  qed
  with c s show ?thesis by blast
qed

theorem canceling_overrides_to_StopByUser_witness:
  "flagCanceling (CancelReconcile reconciler0) \<and>
   setFlagHaveTaskIfNotSet (CancelReconcile reconciler0) pipeline1 world0 =
     Inr ((CancelReconcile reconciler0)\<lparr>flagHaveTask := Some True\<rparr>) \<and>
   ListPipelineTasksByPipelineID world0 (ID (Base pipeline1)) = Inr [] \<and>
   IsEndStatus specLib PipelineStatusStopByUser \<and>
   calculatePipelineStatusByAllReconciledTasks specLib (CancelReconcile reconciler0) pipeline1 world0 =
     Inr (None, (CancelReconcile reconciler0)\<lparr>flagHaveTask := Some True,
            calculatedPipelineStatusByAllReconciledTasks := PipelineStatusStopByUser\<rparr>) \<and>
   UpdateCurrentReconcileStatusIfNecessary specLib
       ((CancelReconcile reconciler0)\<lparr>flagHaveTask := Some True,
            calculatedPipelineStatusByAllReconciledTasks := PipelineStatusStopByUser\<rparr>)
       pipeline1 world0 =
     (None, pipeline1\<lparr>Base := (Base pipeline1)\<lparr>Status := PipelineStatusStopByUser\<rparr>\<rparr>,
      world0\<lparr>storeCalls := 1,
        trace := [EvUpdatePipelineBaseStatus 1 PipelineStatusStopByUser None,
                  EvEmitPipelineInstanceEvent
                    (pipeline1\<lparr>Base := (Base pipeline1)\<lparr>Status := PipelineStatusStopByUser\<rparr>\<rparr>)]\<rparr>) \<and>
   Status (Base (pipeline1\<lparr>Base := (Base pipeline1)\<lparr>Status := PipelineStatusStopByUser\<rparr>\<rparr>)) =
     PipelineStatusStopByUser"
proof -
  let ?pr = "CancelReconcile reconciler0"
  let ?pr' = "?pr\<lparr>flagHaveTask := Some True,
            calculatedPipelineStatusByAllReconciledTasks := PipelineStatusStopByUser\<rparr>"
  let ?p3 = "pipeline1\<lparr>Base := (Base pipeline1)\<lparr>Status := PipelineStatusStopByUser\<rparr>\<rparr>"
  let ?w3 = "world0\<lparr>storeCalls := 1,
        trace := [EvUpdatePipelineBaseStatus 1 PipelineStatusStopByUser None,
                  EvEmitPipelineInstanceEvent ?p3]\<rparr>"
  have h1: "flagCanceling ?pr" by (simp add: CancelReconcile_def)
  have h2: "setFlagHaveTaskIfNotSet ?pr pipeline1 world0 = Inr (?pr\<lparr>flagHaveTask := Some True\<rparr>)"
    by (simp add: setFlagHaveTaskIfNotSet_def CancelReconcile_def example_defs)
  have h3: "ListPipelineTasksByPipelineID world0 (ID (Base pipeline1)) = Inr []"
    by (simp add: example_defs)
  have h4: "IsEndStatus specLib PipelineStatusStopByUser" by (simp add: example_defs)
  have c: "calculatePipelineStatusByAllReconciledTasks specLib ?pr pipeline1 world0 = Inr (None, ?pr')"
    by (simp add: calculate_defs CancelReconcile_def example_defs)
  have u: "UpdateCurrentReconcileStatusIfNecessary specLib ?pr' pipeline1 world0 = (None, ?p3, ?w3)"
    by (simp add: update_defs CancelReconcile_def example_defs)
  from canceling_overrides_to_StopByUser [OF h1 h2 h3, of specLib pipeline1 world0 ?p3 ?w3]
  obtain pr' where
    c': "calculatePipelineStatusByAllReconciledTasks specLib ?pr pipeline1 world0 = Inr (None, pr')"
    and imp: "IsEndStatus specLib PipelineStatusStopByUser \<longrightarrow>
            UpdateCurrentReconcileStatusIfNecessary specLib pr' pipeline1 world0 = (None, ?p3, ?w3) \<longrightarrow>
              Status (Base ?p3) = PipelineStatusStopByUser \<and>
              (Status (Base pipeline1) = PipelineStatusStopByUser \<longrightarrow> ?p3 = pipeline1 \<and> ?w3 = world0) \<and>
              (Status (Base pipeline1) \<noteq> PipelineStatusStopByUser \<longrightarrow>
                 ?p3 = pipeline1\<lparr>Base := (Base pipeline1)\<lparr>Status := PipelineStatusStopByUser\<rparr>\<rparr> \<and>
                 ?w3 = world0\<lparr>storeCalls := Suc (storeCalls world0),
                        trace := trace world0 @
                          [EvUpdatePipelineBaseStatus (ID (Base pipeline1)) PipelineStatusStopByUser None,
                           EvEmitPipelineInstanceEvent ?p3]\<rparr>)"
    by blast
  from c c' have "pr' = ?pr'" by simp
  with imp h4 u have "Status (Base ?p3) = PipelineStatusStopByUser" by blast
  with h1 h2 h3 h4 c u show ?thesis by blast
qed

text \<open>
  Claim C4, as stated, says that with zero task rows, a successful reduction and
  \<^verbatim>\<open>flagHaveTask\<close> true the aggregated status becomes \<^verbatim>\<open>Running\<close>. With the
  canceling flag set as well, the second special case of the source overrides the first
  and the aggregated status is \<^verbatim>\<open>StopByUser\<close>.
\<close>

theorem zero_rows_override_counterexample:
  "ListPipelineTasksByPipelineID world0 (ID (Base pipeline1)) = Inr [] \<and>
   IsSuccessStatus specLib (CalculatePipelineStatusV2 specLib []) \<and>
   flagHaveTask (reconciler0\<lparr>flagCanceling := True, flagHaveTask := Some True\<rparr>) = Some True \<and>
   calculatePipelineStatusByAllReconciledTasks specLib
       (reconciler0\<lparr>flagCanceling := True, flagHaveTask := Some True\<rparr>) pipeline1 world0 =
     Inr (None, reconciler0\<lparr>flagCanceling := True, flagHaveTask := Some True,
            calculatedPipelineStatusByAllReconciledTasks := PipelineStatusStopByUser\<rparr>) \<and>
   PipelineStatusStopByUser \<noteq> PipelineStatusRunning"
  by (simp add: calculate_defs example_defs)

text \<open>
  Claim C4, amended. If the reduction over the task rows yields a success status while
  there are zero task rows and \<^verbatim>\<open>flagHaveTask\<close> is true, the aggregator returns
  \<^verbatim>\<open>nil\<close> and the aggregated status is \<^verbatim>\<open>Running\<close> when the canceling flag is not
  set and \<^verbatim>\<open>StopByUser\<close> when it is set; in both cases it is not \<^verbatim>\<open>Success\<close>.
\<close>

theorem zero_rows_not_Success:
  assumes "setFlagHaveTaskIfNotSet pr p w = Inr pr1"
    and "flagHaveTask pr1 = Some True"
    and "ListPipelineTasksByPipelineID w (ID (Base p)) = Inr []"
    and "IsSuccessStatus lb (CalculatePipelineStatusV2 lb [])"
  shows "\<exists>pr'. calculatePipelineStatusByAllReconciledTasks lb pr p w = Inr (None, pr') \<and>
           calculatedPipelineStatusByAllReconciledTasks pr' =
             (if flagCanceling pr then PipelineStatusStopByUser else PipelineStatusRunning) \<and>
           calculatedPipelineStatusByAllReconciledTasks pr' \<noteq> PipelineStatusSuccess"
proof -
  let ?st = "if flagCanceling pr then PipelineStatusStopByUser else PipelineStatusRunning"
  from calculate_result [OF assms(1,3), of lb] assms(2,4)
  have "calculatePipelineStatusByAllReconciledTasks lb pr p w =
      Inr (None, pr1\<lparr>calculatedPipelineStatusByAllReconciledTasks := ?st\<rparr>)"
    by simp
  moreover have "?st \<noteq> PipelineStatusSuccess"
    by (simp add: PipelineStatusStopByUser_def PipelineStatusRunning_def PipelineStatusSuccess_def)
  ultimately show ?thesis by simp
qed

theorem zero_rows_not_Success_witness:
  "setFlagHaveTaskIfNotSet reconciler0 pipeline1 world0 =
     Inr (reconciler0\<lparr>flagHaveTask := Some True\<rparr>) \<and>
   flagHaveTask (reconciler0\<lparr>flagHaveTask := Some True\<rparr>) = Some True \<and>
   ListPipelineTasksByPipelineID world0 (ID (Base pipeline1)) = Inr [] \<and>
   IsSuccessStatus specLib (CalculatePipelineStatusV2 specLib []) \<and>
   (\<exists>pr'. calculatePipelineStatusByAllReconciledTasks specLib reconciler0 pipeline1 world0 =
             Inr (None, pr') \<and>
           calculatedPipelineStatusByAllReconciledTasks pr' =
             (if flagCanceling reconciler0 then PipelineStatusStopByUser
              else PipelineStatusRunning) \<and>
           calculatedPipelineStatusByAllReconciledTasks pr' \<noteq> PipelineStatusSuccess)"
proof -
  have h1: "setFlagHaveTaskIfNotSet reconciler0 pipeline1 world0 =
     Inr (reconciler0\<lparr>flagHaveTask := Some True\<rparr>)"
    by (simp add: setFlagHaveTaskIfNotSet_def example_defs)
  have h2: "flagHaveTask (reconciler0\<lparr>flagHaveTask := Some True\<rparr>) = Some True" by simp
  have h3: "ListPipelineTasksByPipelineID world0 (ID (Base pipeline1)) = Inr []"
    by (simp add: example_defs)
  have h4: "IsSuccessStatus specLib (CalculatePipelineStatusV2 specLib [])"
    by (simp add: example_defs)
  from h1 h2 h3 h4 zero_rows_not_Success [OF h1 h2 h3 h4] show ?thesis by blast
qed


subsection \<open>Cancellation\<close>

lemma GetTasks_flagCanceling:
  assumes "GetTasksCanBeConcurrentlyScheduled pr p w = (res, pr')"
  shows "flagCanceling pr' = flagCanceling pr"
proof (cases "ymlTaskMergeDBTasks w p")
  case (Inl err)
  with assms show ?thesis by (simp add: GetTasksCanBeConcurrentlyScheduled_def)
next
  case allTasks: (Inr allTasks)
  show ?thesis
  proof (cases "flagCanceling pr")
    case True
    with allTasks assms show ?thesis by (simp add: GetTasksCanBeConcurrentlyScheduled_def)
  next
    case False
    show ?thesis
    proof (cases "GetSchedulableTasks w p allTasks")
      case (Inl err)
      with allTasks False assms show ?thesis
        by (simp add: GetTasksCanBeConcurrentlyScheduled_def)
    next
      case (Inr sts)
      obtain tasks m where f: "filterProcessing sts (processingTasks pr) [] = (tasks, m)"
        by (cases "filterProcessing sts (processingTasks pr) []")
      with Inr allTasks False assms have "pr' = pr\<lparr>processingTasks := m\<rparr>"
        by (simp add: GetTasksCanBeConcurrentlyScheduled_def)
      then show ?thesis by simp
    qed
  qed
qed

lemma exec_flagCanceling:
  assumes "exec lb c s = Some s'" and "flagCanceling (reconciler s)"
  shows "flagCanceling (reconciler s')"
proof (cases c)
  case CallPrepareBeforeReconcile
  with assms show ?thesis
    by (cases "PrepareBeforeReconcile lb (reconciler s) (pipeline s) (env s)")
       (auto simp: exec_def)
next
  case CallGetTasksCanBeConcurrentlyScheduled
  obtain res pr' where g:
    "GetTasksCanBeConcurrentlyScheduled (reconciler s) (pipeline s) (env s) = (res, pr')"
    by (cases "GetTasksCanBeConcurrentlyScheduled (reconciler s) (pipeline s) (env s)")
  with assms(1) CallGetTasksCanBeConcurrentlyScheduled have "reconciler s' = pr'"
    by (cases res) (auto simp: exec_def)
  with GetTasks_flagCanceling [OF g] assms(2) show ?thesis by simp
next
  case CallUpdateCurrentReconcileStatusIfNecessary
  with assms show ?thesis
    by (cases "UpdateCurrentReconcileStatusIfNecessary lb (reconciler s) (pipeline s) (env s)")
       (auto simp: exec_def)
next
  case CallCalculatePipelineStatusByAllReconciledTasks
  show ?thesis
  proof (cases "calculatePipelineStatusByAllReconciledTasks lb (reconciler s) (pipeline s) (env s)")
    case (Inl pn)
    with assms(1) CallCalculatePipelineStatusByAllReconciledTasks show ?thesis
      by (simp add: exec_def)
  next
    case (Inr res)
    obtain r pr' where "res = (r, pr')" by (cases res)
    with Inr assms CallCalculatePipelineStatusByAllReconciledTasks calculate_frame [of lb _ _ _ r pr']
    show ?thesis by (auto simp: exec_def)
  qed
next
  case CallCancelReconcile
  with assms(1) show ?thesis by (auto simp: exec_def CancelReconcile_def)
next
  case CallTeardownAfterReconcileDone
  with assms show ?thesis
    by (cases "TeardownAfterReconcileDone lb (reconciler s) (pipeline s) (env s)")
       (auto simp: exec_def)
qed

lemma run_flagCanceling:
  "run lb steps s = Some s' \<Longrightarrow> flagCanceling (reconciler s) \<Longrightarrow> flagCanceling (reconciler s')"
proof (induction steps arbitrary: s)
  case Nil
  then show ?case by simp
next
  case (Cons st steps)
  show ?case
  proof (cases st)
    case (Call c)
    with Cons.prems obtain s1 where s1: "exec lb c s = Some s1" "run lb steps s1 = Some s'"
      by (cases "exec lb c s") auto
    from exec_flagCanceling [OF s1(1) Cons.prems(2)] have "flagCanceling (reconciler s1)" .
    with s1(2) show ?thesis by (rule Cons.IH)
  next
    case (Environment w)
    with Cons.prems have "run lb steps (s\<lparr>env := w\<rparr>) = Some s'" by simp
    moreover have "flagCanceling (reconciler (s\<lparr>env := w\<rparr>))"
      using Cons.prems(2) by simp
    ultimately show ?thesis by (rule Cons.IH)
  qed
qed

text \<open>
  Claim C9. \<^verbatim>\<open>CancelReconcile\<close> sets the canceling flag and changes nothing else:
  no other field of the reconciler, not the pipeline object, not the world. No method of
  the reconciler resets the flag: once it is set, it is set after any run. (A call is
  atomic in this model, which is what taking the mutex gives the Go method.)
\<close>

theorem canceling_flag_sticky:
  "exec lb CallCancelReconcile s =
     Some (s\<lparr>reconciler := (reconciler s)\<lparr>flagCanceling := True\<rparr>\<rparr>) \<and>
   (flagCanceling (reconciler s) \<longrightarrow> run lb steps s = Some s' \<longrightarrow>
      flagCanceling (reconciler s'))"
  using run_flagCanceling [of lb steps s s']
  by (simp add: exec_def CancelReconcile_def)

theorem canceling_flag_sticky_witness:
  "flagCanceling (reconciler (config0\<lparr>reconciler := CancelReconcile reconciler0\<rparr>)) \<and>
   (\<exists>s'. run specLib
     [Call CallCalculatePipelineStatusByAllReconciledTasks,
      Call CallGetTasksCanBeConcurrentlyScheduled,
      Environment (worldFailing 1),
      Call CallUpdateCurrentReconcileStatusIfNecessary,
      Call CallPrepareBeforeReconcile]
     (config0\<lparr>reconciler := CancelReconcile reconciler0\<rparr>) = Some s' \<and>
     flagCanceling (reconciler s'))"
proof -
  let ?s = "config0\<lparr>reconciler := CancelReconcile reconciler0\<rparr>"
  let ?steps = "[Call CallCalculatePipelineStatusByAllReconciledTasks,
      Call CallGetTasksCanBeConcurrentlyScheduled,
      Environment (worldFailing 1),
      Call CallUpdateCurrentReconcileStatusIfNecessary,
      Call CallPrepareBeforeReconcile]"
  have h: "flagCanceling (reconciler ?s)" by (simp add: CancelReconcile_def)
  have "\<exists>s'. run specLib ?steps ?s = Some s'"
    by (simp add: exec_def CancelReconcile_def calculatePipelineStatusByAllReconciledTasks_def
          setFlagHaveTaskIfNotSet_def considerSpecialCases_def
          GetTasksCanBeConcurrentlyScheduled_def PrepareBeforeReconcile_def
          updateStatusRunningLoop.simps update_defs example_defs)
  then obtain s' where r: "run specLib ?steps ?s = Some s'" by blast
  from canceling_flag_sticky [of specLib ?s ?steps s', THEN conjunct2, THEN mp, THEN mp, OF h r] h r
  show ?thesis by blast
qed


subsection \<open>\<^verbatim>\<open>PrepareBeforeReconcile\<close>: retry until written\<close>

lemma updateStatusRunningLoop_succeeds:
  "(\<forall>i<k. storeResult w (storeCalls w + i) \<noteq> None) \<Longrightarrow>
   storeResult w (storeCalls w + k) = None \<Longrightarrow>
   updateStatusRunningLoop pr p w =
     Some (w\<lparr>storeCalls := storeCalls w + Suc k,
             trace := trace w @
               failedRounds (EvUpdatePipelineBaseStatus (ID (Base p)) PipelineStatusRunning)
                 (defaultRetryInterval pr) (storeResult w) (storeCalls w) k @
               [EvUpdatePipelineBaseStatus (ID (Base p)) PipelineStatusRunning None]\<rparr>)"
proof (induction k arbitrary: w)
  case 0
  then show ?case
    by (subst updateStatusRunningLoop.simps)
       (simp add: UpdatePipelineBaseStatus_def storeWrite_def)
next
  case (Suc k)
  from Suc.prems(1) obtain err where err: "storeResult w (storeCalls w) = Some err"
    by (metis add.right_neutral not_None_eq zero_less_Suc)
  let ?w1 = "w\<lparr>storeCalls := Suc (storeCalls w),
               trace := trace w @
                 [EvUpdatePipelineBaseStatus (ID (Base p)) PipelineStatusRunning (Some err),
                  EvSleep (defaultRetryInterval pr)]\<rparr>"
  have step: "updateStatusRunningLoop pr p w = updateStatusRunningLoop pr p ?w1"
    by (subst updateStatusRunningLoop.simps)
       (simp add: UpdatePipelineBaseStatus_def storeWrite_def emit_def err Let_def)
  have 1: "\<forall>i<k. storeResult ?w1 (storeCalls ?w1 + i) \<noteq> None"
    using Suc.prems(1) by auto
  have 2: "storeResult ?w1 (storeCalls ?w1 + k) = None"
    using Suc.prems(2) by simp
  from Suc.IH [OF 1 2] step err show ?case by simp
qed

lemma updateStatusRunningLoop_returns:
  assumes "updateStatusRunningLoop pr p w = Some w'"
  shows "\<exists>i. storeResult w (storeCalls w + i) = None"
proof (rule updateStatusRunningLoop.raw_induct
    [where P = "\<lambda>pr p w w'. \<exists>i. storeResult w (storeCalls w + i) = None", OF _ assms])
  fix loop :: "defaultPipelineReconciler \<Rightarrow> Pipeline \<Rightarrow> world \<Rightarrow> world option"
    and pr p w w'
  assume IH: "\<And>pr p w w'. loop pr p w = Some w' \<Longrightarrow> \<exists>i. storeResult w (storeCalls w + i) = None"
    and body: "(case UpdatePipelineBaseStatus (ID (Base p)) PipelineStatusRunning w of
                  (None, w1) \<Rightarrow> Some w1
                | (Some err, w1) \<Rightarrow> loop pr p (emit [EvSleep (defaultRetryInterval pr)] w1)) =
               Some w'"
  show "\<exists>i. storeResult w (storeCalls w + i) = None"
  proof (cases "storeResult w (storeCalls w)")
    case None
    then have "storeResult w (storeCalls w + 0) = None" by simp
    then show ?thesis by blast
  next
    case (Some err)
    let ?w1 = "w\<lparr>storeCalls := Suc (storeCalls w),
               trace := trace w @
                 [EvUpdatePipelineBaseStatus (ID (Base p)) PipelineStatusRunning (Some err),
                  EvSleep (defaultRetryInterval pr)]\<rparr>"
    from body Some have "loop pr p ?w1 = Some w'"
      by (simp add: UpdatePipelineBaseStatus_def storeWrite_def emit_def Let_def)
    from IH [OF this] obtain i where "storeResult ?w1 (storeCalls ?w1 + i) = None"
      by blast
    then have "storeResult w (storeCalls w + Suc i) = None" by simp
    then show ?thesis by blast
  qed
qed

lemma updateStatusRunningLoop_forever:
  assumes "\<forall>i. storeResult w (storeCalls w + i) \<noteq> None"
  shows "updateStatusRunningLoop pr p w = None"
proof (cases "updateStatusRunningLoop pr p w")
  case None
  then show ?thesis .
next
  case (Some w')
  from updateStatusRunningLoop_returns [OF this] assms show ?thesis by blast
qed

lemma failedRounds_no_event: "filter isEvent (failedRounds (EvUpdatePipelineBaseStatus pid st) d res n k) = []"
  by (induction k arbitrary: n) (simp_all add: isEvent_def)

text \<open>
  Claim C5. If the status has passed the after-queue checkpoint,
  \<^verbatim>\<open>PrepareBeforeReconcile\<close> makes no store write and emits no event; it only starts
  the goroutine that sends the first trigger. Otherwise it writes the status
  \<^verbatim>\<open>Running\<close> again and again: if the store fails the next \<open>k\<close> writes and accepts
  the one after, the method returns with the status \<^verbatim>\<open>Running\<close> in memory, and the
  trace is extended by \<open>k\<close> rounds of a failed write followed by a sleep of
  \<^verbatim>\<open>defaultRetryInterval\<close>, then the successful write, then one event, then the
  trigger; the failed rounds contain no event. If the store never accepts the write, the
  method never returns.
\<close>

theorem prepare_retries_until_written:
  "(AfterPipelineQueue lb (Status (Base p)) \<longrightarrow>
      PrepareBeforeReconcile lb pr p w = Some (p, w\<lparr>trace := trace w @ [EvGoTriggerNextLoop]\<rparr>)) \<and>
   (\<not> AfterPipelineQueue lb (Status (Base p)) \<longrightarrow>
      (\<forall>i<k. storeResult w (storeCalls w + i) \<noteq> None) \<longrightarrow>
      storeResult w (storeCalls w + k) = None \<longrightarrow>
      PrepareBeforeReconcile lb pr p w =
        Some (p\<lparr>Base := (Base p)\<lparr>Status := PipelineStatusRunning\<rparr>\<rparr>,
              w\<lparr>storeCalls := storeCalls w + Suc k,
                trace := trace w @
                  failedRounds (EvUpdatePipelineBaseStatus (ID (Base p)) PipelineStatusRunning)
                    (defaultRetryInterval pr) (storeResult w) (storeCalls w) k @
                  [EvUpdatePipelineBaseStatus (ID (Base p)) PipelineStatusRunning None,
                   EvEmitPipelineInstanceEvent
                     (p\<lparr>Base := (Base p)\<lparr>Status := PipelineStatusRunning\<rparr>\<rparr>),
                   EvGoTriggerNextLoop]\<rparr>) \<and>
      filter isEvent
        (failedRounds (EvUpdatePipelineBaseStatus (ID (Base p)) PipelineStatusRunning)
           (defaultRetryInterval pr) (storeResult w) (storeCalls w) k) = []) \<and>
   (\<not> AfterPipelineQueue lb (Status (Base p)) \<longrightarrow>
      (\<forall>i. storeResult w (storeCalls w + i) \<noteq> None) \<longrightarrow>
      PrepareBeforeReconcile lb pr p w = None)"
proof (intro conjI impI)
  assume "AfterPipelineQueue lb (Status (Base p))"
  then show "PrepareBeforeReconcile lb pr p w = Some (p, w\<lparr>trace := trace w @ [EvGoTriggerNextLoop]\<rparr>)"
    by (simp add: PrepareBeforeReconcile_def emit_def)
next
  assume a: "\<not> AfterPipelineQueue lb (Status (Base p))"
    and f: "\<forall>i<k. storeResult w (storeCalls w + i) \<noteq> None"
    and s: "storeResult w (storeCalls w + k) = None"
  from updateStatusRunningLoop_succeeds [OF f s, of pr p] a
  show "PrepareBeforeReconcile lb pr p w =
        Some (p\<lparr>Base := (Base p)\<lparr>Status := PipelineStatusRunning\<rparr>\<rparr>,
              w\<lparr>storeCalls := storeCalls w + Suc k,
                trace := trace w @
                  failedRounds (EvUpdatePipelineBaseStatus (ID (Base p)) PipelineStatusRunning)
                    (defaultRetryInterval pr) (storeResult w) (storeCalls w) k @
                  [EvUpdatePipelineBaseStatus (ID (Base p)) PipelineStatusRunning None,
                   EvEmitPipelineInstanceEvent
                     (p\<lparr>Base := (Base p)\<lparr>Status := PipelineStatusRunning\<rparr>\<rparr>),
                   EvGoTriggerNextLoop]\<rparr>)"
    by (simp add: PrepareBeforeReconcile_def emit_def Let_def)
next
  show "filter isEvent
        (failedRounds (EvUpdatePipelineBaseStatus (ID (Base p)) PipelineStatusRunning)
           (defaultRetryInterval pr) (storeResult w) (storeCalls w) k) = []"
    by (rule failedRounds_no_event)
next
  assume a: "\<not> AfterPipelineQueue lb (Status (Base p))"
    and f: "\<forall>i. storeResult w (storeCalls w + i) \<noteq> None"
  from updateStatusRunningLoop_forever [OF f, of pr p] a
  show "PrepareBeforeReconcile lb pr p w = None"
    by (simp add: PrepareBeforeReconcile_def)
qed


theorem prepare_retries_until_written_witness:
  "AfterPipelineQueue specLib
     (Status (Base (pipeline1\<lparr>Base := (Base pipeline1)\<lparr>Status := PipelineStatusRunning\<rparr>\<rparr>))) \<and>
   PrepareBeforeReconcile specLib reconciler0
       (pipeline1\<lparr>Base := (Base pipeline1)\<lparr>Status := PipelineStatusRunning\<rparr>\<rparr>) world0 =
     Some (pipeline1\<lparr>Base := (Base pipeline1)\<lparr>Status := PipelineStatusRunning\<rparr>\<rparr>,
           world0\<lparr>trace := [EvGoTriggerNextLoop]\<rparr>) \<and>
   \<not> AfterPipelineQueue specLib (Status (Base pipeline1)) \<and>
   storeResult (worldFailing 3) (storeCalls (worldFailing 3) + 0) \<noteq> None \<and>
   storeResult (worldFailing 3) (storeCalls (worldFailing 3) + 1) \<noteq> None \<and>
   storeResult (worldFailing 3) (storeCalls (worldFailing 3) + 2) \<noteq> None \<and>
   storeResult (worldFailing 3) (storeCalls (worldFailing 3) + 3) = None \<and>
   PrepareBeforeReconcile specLib reconciler0 pipeline1 (worldFailing 3) =
     Some (pipeline1\<lparr>Base := (Base pipeline1)\<lparr>Status := PipelineStatusRunning\<rparr>\<rparr>,
           (worldFailing 3)\<lparr>storeCalls := 4,
             trace :=
               [EvUpdatePipelineBaseStatus 1 PipelineStatusRunning (Some ''store down''), EvSleep 5,
                EvUpdatePipelineBaseStatus 1 PipelineStatusRunning (Some ''store down''), EvSleep 5,
                EvUpdatePipelineBaseStatus 1 PipelineStatusRunning (Some ''store down''), EvSleep 5,
                EvUpdatePipelineBaseStatus 1 PipelineStatusRunning None,
                EvEmitPipelineInstanceEvent
                  (pipeline1\<lparr>Base := (Base pipeline1)\<lparr>Status := PipelineStatusRunning\<rparr>\<rparr>),
                EvGoTriggerNextLoop]\<rparr>) \<and>
   PrepareBeforeReconcile specLib reconciler0 pipeline1
       (world0\<lparr>storeResult := (\<lambda>n. Some ''store down'')\<rparr>) = None"
proof -
  let ?pR = "pipeline1\<lparr>Base := (Base pipeline1)\<lparr>Status := PipelineStatusRunning\<rparr>\<rparr>"
  let ?wD = "world0\<lparr>storeResult := (\<lambda>n. Some ''store down'')\<rparr>"
  have a: "AfterPipelineQueue specLib (Status (Base ?pR))" by (simp add: example_defs)
  from prepare_retries_until_written [where lb = specLib and p = ?pR and pr = reconciler0 and w = world0, THEN conjunct1, THEN mp, OF a]
  have 1: "PrepareBeforeReconcile specLib reconciler0 ?pR world0 =
      Some (?pR, world0\<lparr>trace := [EvGoTriggerNextLoop]\<rparr>)"
    by (simp add: world0_def)
  have n: "\<not> AfterPipelineQueue specLib (Status (Base pipeline1))" by (simp add: example_defs)
  have f: "\<forall>i<3. storeResult (worldFailing 3) (storeCalls (worldFailing 3) + i) \<noteq> None"
    by (simp add: example_defs)
  have s: "storeResult (worldFailing 3) (storeCalls (worldFailing 3) + 3) = None"
    by (simp add: example_defs)
  from prepare_retries_until_written [where lb = specLib and p = pipeline1 and k = 3 and w = "worldFailing 3" and pr = reconciler0,
      THEN conjunct2, THEN conjunct1, THEN mp, THEN mp, THEN mp, OF n f s, THEN conjunct1]
  have 2: "PrepareBeforeReconcile specLib reconciler0 pipeline1 (worldFailing 3) =
     Some (?pR,
           (worldFailing 3)\<lparr>storeCalls := 4,
             trace :=
               [EvUpdatePipelineBaseStatus 1 PipelineStatusRunning (Some ''store down''), EvSleep 5,
                EvUpdatePipelineBaseStatus 1 PipelineStatusRunning (Some ''store down''), EvSleep 5,
                EvUpdatePipelineBaseStatus 1 PipelineStatusRunning (Some ''store down''), EvSleep 5,
                EvUpdatePipelineBaseStatus 1 PipelineStatusRunning None,
                EvEmitPipelineInstanceEvent ?pR,
                EvGoTriggerNextLoop]\<rparr>)"
    by (simp add: worldFailing_def world0_def pipeline1_def reconciler0_def numeral_3_eq_3)
  have d: "\<forall>i. storeResult ?wD (storeCalls ?wD + i) \<noteq> None" by simp
  from prepare_retries_until_written [where lb = specLib and p = pipeline1 and w = ?wD and pr = reconciler0,
      THEN conjunct2, THEN conjunct2, THEN mp, THEN mp, OF n d]
  have 3: "PrepareBeforeReconcile specLib reconciler0 pipeline1 ?wD = None" .
  have f': "storeResult (worldFailing 3) (storeCalls (worldFailing 3) + 0) \<noteq> None"
    "storeResult (worldFailing 3) (storeCalls (worldFailing 3) + 1) \<noteq> None"
    "storeResult (worldFailing 3) (storeCalls (worldFailing 3) + 2) \<noteq> None"
    by (simp_all add: example_defs)
  from a 1 n f' s 2 3 show ?thesis by blast
qed


subsection \<open>The teardown, step by step\<close>

lemma ContinueWorking_done:
  "ctxDone w (ctxChecks w) \<Longrightarrow>
     ContinueWorking d f (p, w) = Some (p, w\<lparr>ctxChecks := Suc (ctxChecks w)\<rparr>)"
  by (subst ContinueWorking.simps) (simp add: ctxIsDone_def)

lemma ContinueWorking_abort:
  "\<not> ctxDone w (ctxChecks w) \<Longrightarrow>
   f (p, w\<lparr>ctxChecks := Suc (ctxChecks w)\<rparr>) = (ContinueWorkingAbort, p1, w1) \<Longrightarrow>
     ContinueWorking d f (p, w) = Some (p1, w1)"
  by (subst ContinueWorking.simps) (simp add: ctxIsDone_def waitInterval_def)

lemma ContinueWorking_again:
  "\<not> ctxDone w (ctxChecks w) \<Longrightarrow>
   f (p, w\<lparr>ctxChecks := Suc (ctxChecks w)\<rparr>) = (dur, p1, w1) \<Longrightarrow>
   waitInterval d dur = Some t \<Longrightarrow>
     ContinueWorking d f (p, w) = ContinueWorking d f (p1, emit [EvSleep t] w1)"
  by (subst ContinueWorking.simps) (simp add: ctxIsDone_def)

text \<open>A step whose guard already holds is not run a second time to any effect.\<close>

lemma ContinueWorking_guarded:
  assumes "\<And>w. f (p, w) = (ContinueWorkingAbort, p, w)"
  shows "ContinueWorking d f (p, w) = Some (p, w\<lparr>ctxChecks := Suc (ctxChecks w)\<rparr>)"
proof (cases "ctxDone w (ctxChecks w)")
  case True
  then show ?thesis by (rule ContinueWorking_done)
next
  case False
  from ContinueWorking_abort [of w f p p "w\<lparr>ctxChecks := Suc (ctxChecks w)\<rparr>" d, OF False assms]
  show ?thesis .
qed

lemma teardownUpdateEndTime_guard:
  "TimeEnd (Base p) \<noteq> None \<Longrightarrow> teardownUpdateEndTime lb now (p, w) = (ContinueWorkingAbort, p, w)"
  by (simp add: teardownUpdateEndTime_def)

lemma teardownMark_guard:
  "CompleteReconcilerTeardown (Extra (PExtra p)) \<Longrightarrow>
     teardownMark pr (p, w) = (ContinueWorkingAbort, p, w)"
  by (simp add: teardownMark_def)

text \<open>The first step of the teardown, in full.\<close>

lemma updateEndTime_step:
  "ContinueWorking d (teardownUpdateEndTime lb now) (p, w) =
     (if ctxDone w (ctxChecks w) \<or> TimeEnd (Base p) \<noteq> None
      then Some (p, w\<lparr>ctxChecks := Suc (ctxChecks w)\<rparr>)
      else
        (let p2 = p\<lparr>Base := (Base p)\<lparr>TimeEnd := Some now,
                    CostTimeSec := CalculatePipelineCostTimeSec lb
                      (p\<lparr>Base := (Base p)\<lparr>TimeEnd := Some now\<rparr>\<rparr>)\<rparr>\<rparr>
         in (case storeResult w (storeCalls w) of
               None \<Rightarrow>
                 Some (p2, w\<lparr>ctxChecks := Suc (ctxChecks w), storeCalls := Suc (storeCalls w),
                             trace := trace w @ [EvUpdatePipelineBase (ID (Base p)) (Base p2) None]\<rparr>)
             | Some err \<Rightarrow>
                 Some (p2, w\<lparr>ctxChecks := Suc (Suc (ctxChecks w)), storeCalls := Suc (storeCalls w),
                             trace := trace w @
                               [EvUpdatePipelineBase (ID (Base p)) (Base p2) (Some err),
                                EvSleep d]\<rparr>))))"
proof (cases "ctxDone w (ctxChecks w)")
  case True
  from ContinueWorking_done [OF True] True show ?thesis by simp
next
  case notDone: False
  show ?thesis
  proof (cases "TimeEnd (Base p)")
    case (Some t)
    then have "TimeEnd (Base p) \<noteq> None" by simp
    from ContinueWorking_guarded [of "teardownUpdateEndTime lb now" p, OF teardownUpdateEndTime_guard [OF this]]
      Some show ?thesis by simp
  next
    case None
    let ?p2 = "p\<lparr>Base := (Base p)\<lparr>TimeEnd := Some now,
                    CostTimeSec := CalculatePipelineCostTimeSec lb
                      (p\<lparr>Base := (Base p)\<lparr>TimeEnd := Some now\<rparr>\<rparr>)\<rparr>\<rparr>"
    let ?w0 = "w\<lparr>ctxChecks := Suc (ctxChecks w)\<rparr>"
    show ?thesis
    proof (cases "storeResult w (storeCalls w)")
      case ok: None
      let ?w1 = "w\<lparr>ctxChecks := Suc (ctxChecks w), storeCalls := Suc (storeCalls w),
                   trace := trace w @ [EvUpdatePipelineBase (ID (Base p)) (Base ?p2) None]\<rparr>"
      have "teardownUpdateEndTime lb now (p, ?w0) = (ContinueWorkingAbort, ?p2, ?w1)"
        using None ok
        by (simp add: teardownUpdateEndTime_def UpdatePipelineBase_def storeWrite_def Let_def)
      from ContinueWorking_abort [of w "teardownUpdateEndTime lb now" p, OF notDone this]
        notDone None ok show ?thesis
        by (simp add: Let_def)
    next
      case (Some err)
      let ?w1 = "w\<lparr>ctxChecks := Suc (ctxChecks w), storeCalls := Suc (storeCalls w),
                   trace := trace w @ [EvUpdatePipelineBase (ID (Base p)) (Base ?p2) (Some err)]\<rparr>"
      have f: "teardownUpdateEndTime lb now (p, ?w0) = (ContinueWorkingWithDefaultInterval, ?p2, ?w1)"
        using None Some
        by (simp add: teardownUpdateEndTime_def UpdatePipelineBase_def storeWrite_def Let_def)
      have t: "waitInterval d ContinueWorkingWithDefaultInterval = Some d"
        by (simp add: waitInterval_def)
      have g: "TimeEnd (Base ?p2) \<noteq> None" by simp
      from ContinueWorking_again [of w "teardownUpdateEndTime lb now" p, OF notDone f t]
        ContinueWorking_guarded [of "teardownUpdateEndTime lb now" ?p2, OF teardownUpdateEndTime_guard [OF g]]
      have "ContinueWorking d (teardownUpdateEndTime lb now) (p, w) =
          Some (?p2, (emit [EvSleep d] ?w1)\<lparr>ctxChecks := Suc (ctxChecks (emit [EvSleep d] ?w1))\<rparr>)"
        by simp
      with notDone None Some show ?thesis by (simp add: Let_def emit_def)
    qed
  qed
qed

lemma afterExecAop_step:
  "ContinueWorking d teardownAfterExecAop (p, w) =
     (if ctxDone w (ctxChecks w) then Some (p, w\<lparr>ctxChecks := Suc (ctxChecks w)\<rparr>)
      else Some (p, w\<lparr>ctxChecks := Suc (ctxChecks w),
                      trace := trace w @ [EvAopHandle p (aopHandle w p)]\<rparr>))"
proof (cases "ctxDone w (ctxChecks w)")
  case True
  from ContinueWorking_done [OF True] True show ?thesis by simp
next
  case False
  have "teardownAfterExecAop (p, w\<lparr>ctxChecks := Suc (ctxChecks w)\<rparr>) =
      (ContinueWorkingAbort, p, w\<lparr>ctxChecks := Suc (ctxChecks w),
                      trace := trace w @ [EvAopHandle p (aopHandle w p)]\<rparr>)"
    by (simp add: teardownAfterExecAop_def emit_def)
  from ContinueWorking_abort [of w teardownAfterExecAop p, OF False this] False
  show ?thesis by simp
qed

lemma mark_step:
  "ContinueWorking d (teardownMark pr) (p, w) =
     (if ctxDone w (ctxChecks w) \<or> CompleteReconcilerTeardown (Extra (PExtra p))
      then Some (p, w\<lparr>ctxChecks := Suc (ctxChecks w)\<rparr>)
      else
        (let p1 = p\<lparr>PExtra := (PExtra p)\<lparr>Extra :=
                        (Extra (PExtra p))\<lparr>CompleteReconcilerTeardown := True\<rparr>\<rparr>\<rparr>
         in (case storeResult w (storeCalls w) of
               None \<Rightarrow>
                 Some (p1, w\<lparr>ctxChecks := Suc (ctxChecks w), storeCalls := Suc (storeCalls w),
                             trace := trace w @
                               [EvUpdatePipelineExtraByPipelineID (ID (Base p)) (PExtra p1) None]\<rparr>)
             | Some err \<Rightarrow>
                 Some (p1, w\<lparr>ctxChecks := Suc (Suc (ctxChecks w)), storeCalls := Suc (storeCalls w),
                             trace := trace w @
                               [EvUpdatePipelineExtraByPipelineID (ID (Base p)) (PExtra p1) (Some err),
                                EvSleep (CfgRetryInterval pr)]\<rparr>))))"
proof (cases "ctxDone w (ctxChecks w)")
  case True
  from ContinueWorking_done [OF True] True show ?thesis by simp
next
  case notDone: False
  show ?thesis
  proof (cases "CompleteReconcilerTeardown (Extra (PExtra p))")
    case True
    from ContinueWorking_guarded [of "teardownMark pr" p, OF teardownMark_guard [OF True]]
      True show ?thesis by simp
  next
    case False
    let ?p1 = "p\<lparr>PExtra := (PExtra p)\<lparr>Extra :=
                        (Extra (PExtra p))\<lparr>CompleteReconcilerTeardown := True\<rparr>\<rparr>\<rparr>"
    let ?w0 = "w\<lparr>ctxChecks := Suc (ctxChecks w)\<rparr>"
    show ?thesis
    proof (cases "storeResult w (storeCalls w)")
      case ok: None
      let ?w1 = "w\<lparr>ctxChecks := Suc (ctxChecks w), storeCalls := Suc (storeCalls w),
                   trace := trace w @
                     [EvUpdatePipelineExtraByPipelineID (ID (Base p)) (PExtra ?p1) None]\<rparr>"
      have "teardownMark pr (p, ?w0) = (ContinueWorkingAbort, ?p1, ?w1)"
        using False ok
        by (simp add: teardownMark_def UpdatePipelineExtraByPipelineID_def storeWrite_def Let_def)
      from ContinueWorking_abort [of w "teardownMark pr" p, OF notDone this]
        notDone False ok show ?thesis
        by (simp add: Let_def)
    next
      case (Some err)
      let ?w1 = "w\<lparr>ctxChecks := Suc (ctxChecks w), storeCalls := Suc (storeCalls w),
                   trace := trace w @
                     [EvUpdatePipelineExtraByPipelineID (ID (Base p)) (PExtra ?p1) (Some err)]\<rparr>"
      have f: "teardownMark pr (p, ?w0) =
          (ContinueWorkingWithCustomInterval (CfgRetryInterval pr), ?p1, ?w1)"
        using False Some
        by (simp add: teardownMark_def UpdatePipelineExtraByPipelineID_def storeWrite_def Let_def)
      have t: "waitInterval d (ContinueWorkingWithCustomInterval (CfgRetryInterval pr)) =
          Some (CfgRetryInterval pr)"
        by (simp add: waitInterval_def)
      have g: "CompleteReconcilerTeardown (Extra (PExtra ?p1))" by simp
      from ContinueWorking_again [of w "teardownMark pr" p, OF notDone f t]
        ContinueWorking_guarded [of "teardownMark pr" ?p1, OF teardownMark_guard [OF g]]
      have "ContinueWorking d (teardownMark pr) (p, w) =
          Some (?p1, (emit [EvSleep (CfgRetryInterval pr)] ?w1)
                  \<lparr>ctxChecks := Suc (ctxChecks (emit [EvSleep (CfgRetryInterval pr)] ?w1))\<rparr>)"
        by simp
      with notDone False Some show ?thesis by (simp add: Let_def emit_def)
    qed
  qed
qed

lemma updateEndTime_summary:
  obtains p1 w1 new where
    "ContinueWorking d (teardownUpdateEndTime lb now) (p, w) = Some (p1, w1)"
    "trace w1 = trace w @ new"
    "PExtra p1 = PExtra p" "ID (Base p1) = ID (Base p)"
    "if TimeEnd (Base p) = None \<and> \<not> ctxDone w (ctxChecks w)
     then Base p1 = (Base p)\<lparr>TimeEnd := Some now,
                     CostTimeSec := CalculatePipelineCostTimeSec lb
                       (p\<lparr>Base := (Base p)\<lparr>TimeEnd := Some now\<rparr>\<rparr>)\<rparr> \<and>
          filter isBaseWrite new =
            [EvUpdatePipelineBase (ID (Base p)) (Base p1) (storeResult w (storeCalls w))]
     else p1 = p \<and> new = []"
proof (cases "TimeEnd (Base p) = None \<and> \<not> ctxDone w (ctxChecks w)")
  case False
  then have "ContinueWorking d (teardownUpdateEndTime lb now) (p, w) =
      Some (p, w\<lparr>ctxChecks := Suc (ctxChecks w)\<rparr>)"
    by (auto simp: updateEndTime_step)
  with False show ?thesis by (intro that [of p "w\<lparr>ctxChecks := Suc (ctxChecks w)\<rparr>" "[]"]) auto
next
  case True
  let ?p2 = "p\<lparr>Base := (Base p)\<lparr>TimeEnd := Some now,
                    CostTimeSec := CalculatePipelineCostTimeSec lb
                      (p\<lparr>Base := (Base p)\<lparr>TimeEnd := Some now\<rparr>\<rparr>)\<rparr>\<rparr>"
  show ?thesis
  proof (cases "storeResult w (storeCalls w)")
    case None
    with True have "ContinueWorking d (teardownUpdateEndTime lb now) (p, w) =
        Some (?p2, w\<lparr>ctxChecks := Suc (ctxChecks w), storeCalls := Suc (storeCalls w),
                      trace := trace w @ [EvUpdatePipelineBase (ID (Base p)) (Base ?p2) None]\<rparr>)"
      by (simp add: updateEndTime_step Let_def)
    with True None show ?thesis
      by (intro that [of ?p2
            "w\<lparr>ctxChecks := Suc (ctxChecks w), storeCalls := Suc (storeCalls w),
               trace := trace w @ [EvUpdatePipelineBase (ID (Base p)) (Base ?p2) None]\<rparr>"
            "[EvUpdatePipelineBase (ID (Base p)) (Base ?p2) None]"])
         (simp_all add: isBaseWrite_def)
  next
    case (Some err)
    with True have "ContinueWorking d (teardownUpdateEndTime lb now) (p, w) =
        Some (?p2, w\<lparr>ctxChecks := Suc (Suc (ctxChecks w)), storeCalls := Suc (storeCalls w),
                      trace := trace w @
                        [EvUpdatePipelineBase (ID (Base p)) (Base ?p2) (Some err), EvSleep d]\<rparr>)"
      by (simp add: updateEndTime_step Let_def)
    with True Some show ?thesis
      by (intro that [of ?p2
            "w\<lparr>ctxChecks := Suc (Suc (ctxChecks w)), storeCalls := Suc (storeCalls w),
               trace := trace w @
                 [EvUpdatePipelineBase (ID (Base p)) (Base ?p2) (Some err), EvSleep d]\<rparr>"
            "[EvUpdatePipelineBase (ID (Base p)) (Base ?p2) (Some err), EvSleep d]"])
         (simp_all add: isBaseWrite_def)
  qed
qed

lemma afterExecAop_summary:
  obtains w1 new where
    "ContinueWorking d teardownAfterExecAop (p, w) = Some (p, w1)"
    "trace w1 = trace w @ new" "filter isBaseWrite new = []"
proof (cases "ctxDone w (ctxChecks w)")
  case True
  then show ?thesis
    by (intro that [of "w\<lparr>ctxChecks := Suc (ctxChecks w)\<rparr>" "[]"]) (simp_all add: afterExecAop_step)
next
  case False
  then show ?thesis
    by (intro that [of "w\<lparr>ctxChecks := Suc (ctxChecks w),
                      trace := trace w @ [EvAopHandle p (aopHandle w p)]\<rparr>"
          "[EvAopHandle p (aopHandle w p)]"])
       (simp_all add: afterExecAop_step isBaseWrite_def)
qed

lemma mark_summary:
  obtains p1 w1 new where
    "ContinueWorking d (teardownMark pr) (p, w) = Some (p1, w1)"
    "trace w1 = trace w @ new" "Base p1 = Base p" "filter isBaseWrite new = []"
proof (cases "ctxDone w (ctxChecks w) \<or> CompleteReconcilerTeardown (Extra (PExtra p))")
  case True
  then have "ContinueWorking d (teardownMark pr) (p, w) =
      Some (p, w\<lparr>ctxChecks := Suc (ctxChecks w)\<rparr>)"
    by (simp add: mark_step)
  then show ?thesis by (intro that [of p "w\<lparr>ctxChecks := Suc (ctxChecks w)\<rparr>" "[]"]) simp_all
next
  case False
  let ?p1 = "p\<lparr>PExtra := (PExtra p)\<lparr>Extra :=
                        (Extra (PExtra p))\<lparr>CompleteReconcilerTeardown := True\<rparr>\<rparr>\<rparr>"
  show ?thesis
  proof (cases "storeResult w (storeCalls w)")
    case None
    with False have "ContinueWorking d (teardownMark pr) (p, w) =
        Some (?p1, w\<lparr>ctxChecks := Suc (ctxChecks w), storeCalls := Suc (storeCalls w),
                      trace := trace w @
                        [EvUpdatePipelineExtraByPipelineID (ID (Base p)) (PExtra ?p1) None]\<rparr>)"
      by (simp add: mark_step Let_def)
    then show ?thesis
      by (intro that [of ?p1
            "w\<lparr>ctxChecks := Suc (ctxChecks w), storeCalls := Suc (storeCalls w),
               trace := trace w @
                 [EvUpdatePipelineExtraByPipelineID (ID (Base p)) (PExtra ?p1) None]\<rparr>"
            "[EvUpdatePipelineExtraByPipelineID (ID (Base p)) (PExtra ?p1) None]"])
         (simp_all add: isBaseWrite_def)
  next
    case (Some err)
    with False have "ContinueWorking d (teardownMark pr) (p, w) =
        Some (?p1, w\<lparr>ctxChecks := Suc (Suc (ctxChecks w)), storeCalls := Suc (storeCalls w),
                      trace := trace w @
                        [EvUpdatePipelineExtraByPipelineID (ID (Base p)) (PExtra ?p1) (Some err),
                         EvSleep (CfgRetryInterval pr)]\<rparr>)"
      by (simp add: mark_step Let_def)
    then show ?thesis
      by (intro that [of ?p1
            "w\<lparr>ctxChecks := Suc (Suc (ctxChecks w)), storeCalls := Suc (storeCalls w),
               trace := trace w @
                 [EvUpdatePipelineExtraByPipelineID (ID (Base p)) (PExtra ?p1) (Some err),
                  EvSleep (CfgRetryInterval pr)]\<rparr>"
            "[EvUpdatePipelineExtraByPipelineID (ID (Base p)) (PExtra ?p1) (Some err),
              EvSleep (CfgRetryInterval pr)]"])
         (simp_all add: isBaseWrite_def)
  qed
qed

text \<open>The teardown always returns, and what it does to the base row is decided by its first step.\<close>

lemma teardown_summary:
  obtains p' w' new1 rest where
    "TeardownAfterReconcileDone lb pr p w = Some (p', w')"
    "trace w' = trace w @ new1 @ rest" "filter isBaseWrite rest = []"
    "if TimeEnd (Base p) = None \<and> \<not> ctxDone w (ctxChecks w)
     then Base p' = (Base p)\<lparr>TimeEnd := Some (timeNow w),
                     CostTimeSec := CalculatePipelineCostTimeSec lb
                       (p\<lparr>Base := (Base p)\<lparr>TimeEnd := Some (timeNow w)\<rparr>\<rparr>)\<rparr> \<and>
          filter isBaseWrite new1 =
            [EvUpdatePipelineBase (ID (Base p)) (Base p') (storeResult w (storeCalls w))]
     else Base p' = Base p \<and> new1 = []"
proof -
  obtain p1 w1 new1 where 1:
    "ContinueWorking (defaultRetryInterval pr) (teardownUpdateEndTime lb (timeNow w)) (p, w) = Some (p1, w1)"
    "trace w1 = trace w @ new1"
    "if TimeEnd (Base p) = None \<and> \<not> ctxDone w (ctxChecks w)
     then Base p1 = (Base p)\<lparr>TimeEnd := Some (timeNow w),
                     CostTimeSec := CalculatePipelineCostTimeSec lb
                       (p\<lparr>Base := (Base p)\<lparr>TimeEnd := Some (timeNow w)\<rparr>\<rparr>)\<rparr> \<and>
          filter isBaseWrite new1 =
            [EvUpdatePipelineBase (ID (Base p)) (Base p1) (storeResult w (storeCalls w))]
     else p1 = p \<and> new1 = []"
    by (rule updateEndTime_summary [of "defaultRetryInterval pr" lb "timeNow w" p w])
  obtain w2 new2 where 2:
    "ContinueWorking (defaultRetryInterval pr) teardownAfterExecAop
       (p1, emit (metricsEffects p1) w1) = Some (p1, w2)"
    "trace w2 = trace (emit (metricsEffects p1) w1) @ new2" "filter isBaseWrite new2 = []"
    by (rule afterExecAop_summary)
  obtain p3 w3 new3 where 3:
    "ContinueWorking (rutilDefaultRetryInterval lb) (teardownMark pr)
       (p1, emit (cleanupEffects p1) w2) = Some (p3, w3)"
    "trace w3 = trace (emit (cleanupEffects p1) w2) @ new3" "Base p3 = Base p1"
    "filter isBaseWrite new3 = []"
    by (rule mark_summary)
  let ?rest = "metricsEffects p1 @ new2 @ cleanupEffects p1 @ new3"
  have t: "TeardownAfterReconcileDone lb pr p w = Some (p3, w3)"
    by (simp add: TeardownAfterReconcileDone_def 1(1) 2(1) 3(1))
  have tr: "trace w3 = trace w @ new1 @ ?rest"
    by (simp add: 1(2) 2(2) 3(2) emit_def)
  have nb: "filter isBaseWrite ?rest = []"
    by (simp add: 2(3) 3(4) metricsEffects_def cleanupEffects_def isBaseWrite_def)
  from 1(3) 3(3) have b: "if TimeEnd (Base p) = None \<and> \<not> ctxDone w (ctxChecks w)
     then Base p3 = (Base p)\<lparr>TimeEnd := Some (timeNow w),
                     CostTimeSec := CalculatePipelineCostTimeSec lb
                       (p\<lparr>Base := (Base p)\<lparr>TimeEnd := Some (timeNow w)\<rparr>\<rparr>)\<rparr> \<and>
          filter isBaseWrite new1 =
            [EvUpdatePipelineBase (ID (Base p)) (Base p3) (storeResult w (storeCalls w))]
     else Base p3 = Base p \<and> new1 = []"
    by (simp split: if_splits)
  from t tr nb b show ?thesis by (rule that)
qed

text \<open>
  Claim C7. \<^verbatim>\<open>TeardownAfterReconcileDone\<close> always returns, and it only adds to the
  trace. If \<^verbatim>\<open>TimeEnd\<close> is set on entry, the base part of the pipeline object
  (\<^verbatim>\<open>TimeEnd\<close>, \<^verbatim>\<open>CostTimeSec\<close> and the rest) is unchanged and the base row is not
  written. If \<^verbatim>\<open>TimeEnd\<close> is \<^verbatim>\<open>nil\<close> on entry and the context is live, \<^verbatim>\<open>TimeEnd\<close>
  becomes the time read at entry, \<^verbatim>\<open>CostTimeSec\<close> is computed from the pipeline with
  that end time, and the base row is written exactly once, with these values. If the
  context is already cancelled, the retry helper does not run the step and nothing is
  set or written. In each case \<^verbatim>\<open>TimeEnd\<close> is assigned at most once.
\<close>

theorem teardown_sets_TimeEnd_once:
  "case TeardownAfterReconcileDone lb pr p w of
     None \<Rightarrow> False
   | Some (p', w') \<Rightarrow>
       take (length (trace w)) (trace w') = trace w \<and>
       (TimeEnd (Base p) \<noteq> None \<longrightarrow>
          Base p' = Base p \<and> filter isBaseWrite (newEffects w w') = []) \<and>
       (TimeEnd (Base p) = None \<longrightarrow> \<not> ctxDone w (ctxChecks w) \<longrightarrow>
          Base p' = (Base p)\<lparr>TimeEnd := Some (timeNow w),
                       CostTimeSec := CalculatePipelineCostTimeSec lb
                         (p\<lparr>Base := (Base p)\<lparr>TimeEnd := Some (timeNow w)\<rparr>\<rparr>)\<rparr> \<and>
          filter isBaseWrite (newEffects w w') =
            [EvUpdatePipelineBase (ID (Base p)) (Base p') (storeResult w (storeCalls w))]) \<and>
       (TimeEnd (Base p) = None \<longrightarrow> ctxDone w (ctxChecks w) \<longrightarrow>
          Base p' = Base p \<and> filter isBaseWrite (newEffects w w') = [])"
proof -
  obtain p' w' new1 rest where t:
    "TeardownAfterReconcileDone lb pr p w = Some (p', w')"
    "trace w' = trace w @ new1 @ rest" "filter isBaseWrite rest = []"
    "if TimeEnd (Base p) = None \<and> \<not> ctxDone w (ctxChecks w)
     then Base p' = (Base p)\<lparr>TimeEnd := Some (timeNow w),
                     CostTimeSec := CalculatePipelineCostTimeSec lb
                       (p\<lparr>Base := (Base p)\<lparr>TimeEnd := Some (timeNow w)\<rparr>\<rparr>)\<rparr> \<and>
          filter isBaseWrite new1 =
            [EvUpdatePipelineBase (ID (Base p)) (Base p') (storeResult w (storeCalls w))]
     else Base p' = Base p \<and> new1 = []"
    by (rule teardown_summary)
  have n: "newEffects w w' = new1 @ rest" using t(2) by (simp add: newEffects_def)
  have pre: "take (length (trace w)) (trace w') = trace w" using t(2) by simp
  have f: "filter isBaseWrite (newEffects w w') = filter isBaseWrite new1"
    using n t(3) by simp
  show ?thesis
  proof (cases "TimeEnd (Base p) = None \<and> \<not> ctxDone w (ctxChecks w)")
    case True
    with t(4) have "Base p' = (Base p)\<lparr>TimeEnd := Some (timeNow w),
                     CostTimeSec := CalculatePipelineCostTimeSec lb
                       (p\<lparr>Base := (Base p)\<lparr>TimeEnd := Some (timeNow w)\<rparr>\<rparr>)\<rparr>"
      "filter isBaseWrite new1 =
            [EvUpdatePipelineBase (ID (Base p)) (Base p') (storeResult w (storeCalls w))]"
      by simp_all
    with True pre f show ?thesis by (simp add: t(1))
  next
    case False
    with t(4) have "Base p' = Base p" "new1 = []" by simp_all
    with False pre f show ?thesis by (auto simp add: t(1))
  qed
qed

theorem teardown_sets_TimeEnd_once_witness:
  "TimeEnd (Base pipelineEnded) \<noteq> None \<and>
   (case TeardownAfterReconcileDone specLib reconciler0 pipelineEnded world0 of
      None \<Rightarrow> False
    | Some (p', w') \<Rightarrow>
        Base p' = Base pipelineEnded \<and> filter isBaseWrite (newEffects world0 w') = []) \<and>
   TimeEnd (Base pipelineDone) = None \<and> \<not> ctxDone world0 (ctxChecks world0) \<and>
   (case TeardownAfterReconcileDone specLib reconciler0 pipelineDone world0 of
      None \<Rightarrow> False
    | Some (p', w') \<Rightarrow>
        Base p' = Base pipelineEnded \<and>
        filter isBaseWrite (newEffects world0 w') =
          [EvUpdatePipelineBase 1 (Base pipelineEnded) None])"
proof -
  have h1: "TimeEnd (Base pipelineEnded) \<noteq> None" by (simp add: pipelineEnded_def)
  have h2: "TimeEnd (Base pipelineDone) = None" by (simp add: pipelineDone_def pipeline1_def)
  have h3: "\<not> ctxDone world0 (ctxChecks world0)" by (simp add: world0_def)
  have e: "(Base pipelineDone)\<lparr>TimeEnd := Some (timeNow world0),
                       CostTimeSec := CalculatePipelineCostTimeSec specLib
                         (pipelineDone\<lparr>Base := (Base pipelineDone)\<lparr>TimeEnd := Some (timeNow world0)\<rparr>\<rparr>)\<rparr>
      = Base pipelineEnded"
    by (simp add: example_defs)
  have i: "ID (Base pipelineDone) = 1" "storeResult world0 (storeCalls world0) = None"
    by (simp_all add: example_defs)
  from teardown_sets_TimeEnd_once [where lb = specLib and pr = reconciler0 and p = pipelineEnded and w = world0] h1
  have 1: "case TeardownAfterReconcileDone specLib reconciler0 pipelineEnded world0 of
      None \<Rightarrow> False
    | Some (p', w') \<Rightarrow>
        Base p' = Base pipelineEnded \<and> filter isBaseWrite (newEffects world0 w') = []"
    by (auto split: option.splits)
  from teardown_sets_TimeEnd_once [where lb = specLib and pr = reconciler0 and p = pipelineDone and w = world0] h2 h3
  have 2: "case TeardownAfterReconcileDone specLib reconciler0 pipelineDone world0 of
      None \<Rightarrow> False
    | Some (p', w') \<Rightarrow>
        Base p' = Base pipelineEnded \<and>
        filter isBaseWrite (newEffects world0 w') =
          [EvUpdatePipelineBase 1 (Base pipelineEnded) None]"
    by (auto split: option.splits simp: e i)
  from h1 1 h2 h3 2 show ?thesis by blast
qed

text \<open>
  The step that writes the completion marker sets the marker in memory before it writes.
  When the write fails the step asks for another attempt, and on that attempt its own
  guard finds the marker set and aborts: whatever the retry helper does with the step,
  the write is not made a second time.
\<close>

lemma teardownMark_asks_retry_then_aborts:
  assumes "\<not> CompleteReconcilerTeardown (Extra (PExtra p))"
    and "storeResult w (storeCalls w) = Some err"
  shows "\<exists>p1 w1. teardownMark pr (p, w) = (ContinueWorkingWithCustomInterval (CfgRetryInterval pr), p1, w1) \<and>
           (\<forall>w2. teardownMark pr (p1, w2) = (ContinueWorkingAbort, p1, w2))"
  using assms
  by (simp add: teardownMark_def UpdatePipelineExtraByPipelineID_def storeWrite_def Let_def)

text \<open>
  Claim C6 says that the write of \<^verbatim>\<open>CompleteReconcilerTeardown = true\<close> is retried
  until it succeeds. Here the teardown of the finished pipeline 1 runs against a store
  that fails its second write only. The marker write is that second write. The teardown
  sleeps \<^verbatim>\<open>Cfg.RetryInterval\<close> and returns: the marker is set in memory, the last store
  write is the failed one, and the third write, which the store would have accepted, is
  never made. The trace also shows the order of the steps: the write of the base row
  with \<^verbatim>\<open>TimeEnd\<close>, the three metrics goroutines, one call of the after-exec hook,
  cron compensation, the wait for the resource GC, the clearing of the caches, and the
  marker write last.
\<close>

theorem teardown_marker_write_not_retried:
  "TeardownAfterReconcileDone specLib reconciler0 pipelineDone worldSecondWriteFails =
     Some (pipelineMarked,
           worldSecondWriteFails\<lparr>ctxChecks := 4, storeCalls := 2,
             trace :=
               [EvUpdatePipelineBase 1 (Base pipelineEnded) None,
                EvGoPipelineCounterTotalAdd pipelineEnded 1,
                EvGoPipelineGaugeProcessingAdd pipelineEnded (- 1),
                EvGoPipelineEndEvent pipelineEnded,
                EvAopHandle pipelineEnded None,
                EvPipelineCronCompensate 1,
                EvWaitGC ''pipeline-1'' 1,
                EvClearReconcilerPipelineContextCaches 1,
                EvUpdatePipelineExtraByPipelineID 1 (PExtra pipelineMarked) (Some ''store down''),
                EvSleep 7]\<rparr>) \<and>
   storeResult worldSecondWriteFails 2 = None"
  by (simp add: TeardownAfterReconcileDone_def updateEndTime_step afterExecAop_step mark_step
        metricsEffects_def cleanupEffects_def emit_def Let_def example_defs)



end
